theory Spec2Isabelle
  imports Complex_Main "HOL-Library.Word"
begin

section \<open>Pico W temperature monitor: a model of \<^verbatim>\<open>sketch_nov14a_pico_w_temp.ino\<close>\<close>

text \<open>
  The sketch keeps up to 2000 samples in a global array, mirrors them in a CSV file on
  LittleFS, derives the time from an NTP reply and the millisecond counter, and serves
  the data over HTTP. The global variables become one record that every function takes
  and returns; \<^verbatim>\<open>millis()\<close>, the ADC reading, the NTP reply and the request are
  inputs. \<^verbatim>\<open>unsigned long\<close> and \<^verbatim>\<open>uint32_t\<close> are 32-bit words (the RP2040 is an
  ILP32 target). A \<^verbatim>\<open>float\<close> is a finite number, an infinity or NaN; a finite
  result that \<^verbatim>\<open>float\<close> can hold is kept as it is, so the rounding to 24 bits is left
  out of the model, and so is the sign of a zero.
\<close>

type_synonym u32 = "32 word"

subsection \<open>Characters and strings (the C library and the Arduino \<^verbatim>\<open>String\<close> class)\<close>

definition NL :: char where
  "NL = CHR 0x0A"

text \<open>The zero byte, which ends a C string.\<close>

definition NUL :: char where
  "NUL = CHR 0x00"

text \<open>\<^verbatim>\<open>isspace\<close> in the C locale: space, \<^verbatim>\<open>\t \n \v \f \r\<close>.\<close>

definition isspace :: "char \<Rightarrow> bool" where
  "isspace c \<longleftrightarrow> c \<in> set [CHR 0x20, CHR 0x09, CHR 0x0A, CHR 0x0B, CHR 0x0C, CHR 0x0D]"

definition isdigit :: "char \<Rightarrow> bool" where
  "isdigit c \<longleftrightarrow> c \<in> set ''0123456789''"

definition digit_val :: "char \<Rightarrow> nat" where
  "digit_val c = length (takeWhile (\<lambda>d. d \<noteq> c) ''0123456789'')"

definition digit_char :: "nat \<Rightarrow> char" where
  "digit_char d = ''0123456789'' ! d"

text \<open>The value of a run of decimal digits, most significant first.\<close>

definition dec_val :: "string \<Rightarrow> nat" where
  "dec_val ds = foldl (\<lambda>a c. 10 * a + digit_val c) 0 ds"

text \<open>\<^verbatim>\<open>String::trim()\<close>: leading and trailing white space removed.\<close>

definition trim :: "string \<Rightarrow> string" where
  "trim s = rev (dropWhile isspace (rev (dropWhile isspace s)))"

text \<open>
  \<^verbatim>\<open>String::indexOf(ch, from)\<close>: \<open>-1\<close> when \<^verbatim>\<open>from\<close> is not below the length,
  otherwise \<^verbatim>\<open>strchr(buffer + from, ch)\<close>. The search of \<^verbatim>\<open>strchr\<close> ends at the
  first zero byte, also when the \<^verbatim>\<open>String\<close> is longer: \<open>seg\<close> is what it looks
  at. Asked for the zero byte itself, \<^verbatim>\<open>strchr\<close> finds the one that ends the search.
\<close>

definition indexOf :: "string \<Rightarrow> char \<Rightarrow> nat \<Rightarrow> int" where
  "indexOf s c from =
     (let seg = takeWhile (\<lambda>x. x \<noteq> NUL) (drop from s)
      in if length s \<le> from then - 1
         else if c = NUL then int (from + length seg)
         else if c \<in> set seg then int (from + length (takeWhile (\<lambda>x. x \<noteq> c) seg))
         else - 1)"

text \<open>
  \<^verbatim>\<open>String::substring(left, right)\<close>: the bounds are swapped when out of order, an
  empty string when \<^verbatim>\<open>left\<close> is past the end, \<^verbatim>\<open>right\<close> clipped to the length.
\<close>

definition substring :: "string \<Rightarrow> nat \<Rightarrow> nat \<Rightarrow> string" where
  "substring s left right =
     (let l = min left right; r = max left right
      in if length s \<le> l then [] else take (min r (length s) - l) (drop l s))"

text \<open>An optional sign in front of a number, as \<^verbatim>\<open>strtol\<close> and \<^verbatim>\<open>strtod\<close> read it.\<close>

fun strip_sign :: "string \<Rightarrow> bool \<times> string" where
  "strip_sign [] = (False, [])"
| "strip_sign (c # r) =
     (if c = CHR ''-'' then (True, r)
      else if c = CHR ''+'' then (False, r)
      else (False, c # r))"

text \<open>
  \<^verbatim>\<open>String::toInt()\<close> is \<^verbatim>\<open>atol\<close> of the buffer, which newlib computes as
  \<^verbatim>\<open>strtol(s, NULL, 10)\<close>: white space, a sign, the longest run of digits (none: 0),
  the result clamped to the 32-bit \<^verbatim>\<open>long\<close>.
\<close>

definition toInt :: "string \<Rightarrow> int" where
  "toInt s =
     (case strip_sign (dropWhile isspace s) of
        (neg, r) \<Rightarrow>
          (let v = int (dec_val (takeWhile isdigit r))
           in if neg then max (- v) (- 2147483648) else min v 2147483647))"

subsection \<open>The values of a \<^verbatim>\<open>float\<close>\<close>

datatype cfloat = Fin real | PInf | NInf | NaN

text \<open>
  The least magnitude that rounds to an infinity: \<^verbatim>\<open>FLT_MAX\<close> plus half a unit in its
  last place.
\<close>

definition FLT_OVERFLOW :: real where
  "FLT_OVERFLOW = 2 ^ 128 - 2 ^ 103"

text \<open>The \<^verbatim>\<open>float\<close> for a real result: an infinity when it is out of range.\<close>

definition to_float :: "real \<Rightarrow> cfloat" where
  "to_float x =
     (if FLT_OVERFLOW \<le> x then PInf else if x \<le> - FLT_OVERFLOW then NInf else Fin x)"

text \<open>Addition, subtraction, comparison and division by a count, as IEEE 754 has them.\<close>

fun fneg :: "cfloat \<Rightarrow> cfloat" where
  "fneg (Fin a) = Fin (- a)"
| "fneg PInf = NInf"
| "fneg NInf = PInf"
| "fneg NaN = NaN"

fun fadd :: "cfloat \<Rightarrow> cfloat \<Rightarrow> cfloat" where
  "fadd (Fin a) (Fin b) = to_float (a + b)"
| "fadd (Fin a) y = y"
| "fadd x (Fin b) = x"
| "fadd PInf PInf = PInf"
| "fadd NInf NInf = NInf"
| "fadd x y = NaN"

definition fsub :: "cfloat \<Rightarrow> cfloat \<Rightarrow> cfloat" where
  "fsub x y = fadd x (fneg y)"

fun flt :: "cfloat \<Rightarrow> cfloat \<Rightarrow> bool" where
  "flt (Fin a) (Fin b) = (a < b)"
| "flt NaN y = False"
| "flt x NaN = False"
| "flt x NInf = False"
| "flt PInf y = False"
| "flt x y = True"

fun fdiv :: "cfloat \<Rightarrow> nat \<Rightarrow> cfloat" where
  "fdiv (Fin a) n = to_float (a / real n)"
| "fdiv x n = x"

subsection \<open>\<^verbatim>\<open>strtod\<close> and \<^verbatim>\<open>printf\<close>\<close>

text \<open>\<^verbatim>\<open>tolower\<close> in the C locale.\<close>

definition tolower :: "char \<Rightarrow> char" where
  "tolower c =
     (case map_of (zip ''ABCDEFGHIJKLMNOPQRSTUVWXYZ'' ''abcdefghijklmnopqrstuvwxyz'') c of
        None \<Rightarrow> c
      | Some l \<Rightarrow> l)"

text \<open>The text starts with the word (given in lower case), in any case of its letters.\<close>

fun starts_with :: "string \<Rightarrow> string \<Rightarrow> bool" where
  "starts_with [] r = True"
| "starts_with (w # ws) [] = False"
| "starts_with (w # ws) (c # cs) = (tolower c = w \<and> starts_with ws cs)"

definition isxdigit :: "char \<Rightarrow> bool" where
  "isxdigit c \<longleftrightarrow> c \<in> set ''0123456789abcdefABCDEF''"

definition xdigit_val :: "char \<Rightarrow> nat" where
  "xdigit_val c = length (takeWhile (\<lambda>d. d \<noteq> tolower c) ''0123456789abcdef'')"

definition hex_val :: "string \<Rightarrow> nat" where
  "hex_val ds = foldl (\<lambda>a c. 16 * a + xdigit_val c) 0 ds"

text \<open>
  The exponent that may follow a mantissa: the letter \<open>mark\<close> in either case, a sign,
  decimal digits.
\<close>

definition parse_exp :: "char \<Rightarrow> string \<Rightarrow> int" where
  "parse_exp mark r =
     (case r of
        [] \<Rightarrow> 0
      | c # r' \<Rightarrow>
          if tolower c = mark
          then (case strip_sign r' of
                  (neg, r'') \<Rightarrow>
                    (let v = int (dec_val (takeWhile isdigit r''))
                     in if neg then - v else v))
          else 0)"

text \<open>
  A decimal number at the start of the text: digits with an optional fraction and an
  optional exponent of ten; 0 when there is no digit.
\<close>

definition dec_number :: "string \<Rightarrow> real" where
  "dec_number r =
     (let ip = takeWhile isdigit r;
          r1 = dropWhile isdigit r;
          hasdot = (r1 \<noteq> [] \<and> hd r1 = CHR ''.'');
          fp = (if hasdot then takeWhile isdigit (tl r1) else []);
          r2 = (if hasdot then dropWhile isdigit (tl r1) else r1);
          m = real (dec_val ip) + real (dec_val fp) / 10 ^ length fp;
          e = parse_exp CHR ''e'' r2;
          v = (if e < 0 then m / 10 ^ nat (- e) else m * 10 ^ nat e)
      in if ip = [] \<and> fp = [] then 0 else v)"

text \<open>
  A hexadecimal number, \<open>r\<close> being what follows \<^verbatim>\<open>0x\<close>: hexadecimal digits with an
  optional fraction and an optional exponent of two after \<^verbatim>\<open>p\<close>. Without a digit
  only the \<^verbatim>\<open>0\<close> before the \<^verbatim>\<open>x\<close> is read, which is 0.
\<close>

definition hex_number :: "string \<Rightarrow> real" where
  "hex_number r =
     (let ip = takeWhile isxdigit r;
          r1 = dropWhile isxdigit r;
          hasdot = (r1 \<noteq> [] \<and> hd r1 = CHR ''.'');
          fp = (if hasdot then takeWhile isxdigit (tl r1) else []);
          r2 = (if hasdot then dropWhile isxdigit (tl r1) else r1);
          m = real (hex_val ip) + real (hex_val fp) / 16 ^ length fp;
          e = parse_exp CHR ''p'' r2;
          v = (if e < 0 then m / 2 ^ nat (- e) else m * 2 ^ nat e)
      in if ip = [] \<and> fp = [] then 0 else v)"

text \<open>
  \<^verbatim>\<open>String::toFloat()\<close> is \<^verbatim>\<open>atof\<close> of the buffer, which is \<^verbatim>\<open>strtod\<close>, converted
  to \<^verbatim>\<open>float\<close>: white space, a sign, then \<^verbatim>\<open>inf\<close> or \<^verbatim>\<open>nan\<close> in any case (whatever
  follows), or a hexadecimal number after \<^verbatim>\<open>0x\<close>, or a decimal number; 0 when there
  is none of these.
\<close>

definition toFloat :: "string \<Rightarrow> cfloat" where
  "toFloat s =
     (case strip_sign (dropWhile isspace s) of
        (neg, r) \<Rightarrow>
          if starts_with ''inf'' r then (if neg then NInf else PInf)
          else if starts_with ''nan'' r then NaN
          else (let v = (if starts_with ''0x'' r then hex_number (drop 2 r) else dec_number r)
                in to_float (if neg then - v else v)))"

text \<open>\<^verbatim>\<open>%u\<close> and \<^verbatim>\<open>%d\<close> of a non-negative number: its decimal digits.\<close>

fun show_nat :: "nat \<Rightarrow> string" where
  "show_nat n = (if n < 10 then [digit_char n] else show_nat (n div 10) @ [digit_char (n mod 10)])"

declare show_nat.simps [simp del]

text \<open>
  \<^verbatim>\<open>%.2f\<close> of a finite value: the value rounded to hundredths, to nearest, a tie to the even neighbour
  (as the C library's correctly rounded conversion does), with a minus sign for a
  negative value and at least one digit before the point.
\<close>

definition round_half_even :: "real \<Rightarrow> nat" where
  "round_half_even x =
     (let f = nat \<lfloor>x\<rfloor>; d = x - real f
      in if d < 1 / 2 then f else if 1 / 2 < d then f + 1 else if even f then f else f + 1)"

definition print_2f :: "real \<Rightarrow> string" where
  "print_2f t =
     (let q = round_half_even (\<bar>t\<bar> * 100)
      in (if t < 0 then ''-'' else '''') @ show_nat (q div 100) @ ''.'' @
         [digit_char (q mod 100 div 10), digit_char (q mod 10)])"

text \<open>\<^verbatim>\<open>%.2f\<close> of a \<^verbatim>\<open>float\<close>: an infinity and NaN are spelled out.\<close>

definition fmt_2f :: "cfloat \<Rightarrow> string" where
  "fmt_2f x =
     (case x of
        Fin t \<Rightarrow> print_2f t
      | PInf \<Rightarrow> ''inf''
      | NInf \<Rightarrow> ''-inf''
      | NaN \<Rightarrow> ''nan'')"

definition fmt_u :: "u32 \<Rightarrow> string" where
  "fmt_u w = show_nat (unat w)"

subsection \<open>The global variables\<close>

text \<open>\<^verbatim>\<open>struct Sample { uint32_t epoch; float tempC; }\<close>\<close>

record Sample =
  epoch :: u32
  tempC :: cfloat

definition MAX_SAMPLES :: nat where
  "MAX_SAMPLES = 2000"

definition SAMPLE_INTERVAL_MS :: u32 where
  "SAMPLE_INTERVAL_MS = 2 * 60 * 1000"

definition NTP_SYNC_INTERVAL_MS :: u32 where
  "NTP_SYNC_INTERVAL_MS = 6 * 3600 * 1000"

definition TZ_OFFSET_SECONDS :: u32 where
  "TZ_OFFSET_SECONDS = 5 * 3600 + 30 * 60"

definition TEMP_CAL_OFFSET :: real where
  "TEMP_CAL_OFFSET = 0"

text \<open>
  The array \<^verbatim>\<open>samples[MAX_SAMPLES]\<close> is a function from the index; only the indices
  below \<open>MAX_SAMPLES\<close> are ever read or written. The two files of the flash file system
  are their contents, \<open>None\<close> for a file that does not exist; \<open>fs_ok\<close> is false when
  LittleFS could not be mounted, and then no file can be opened.
\<close>

record state =
  samples :: "nat \<Rightarrow> Sample"
  sampleCount :: nat
  lastSampleMs :: u32
  lastNtpSyncSec :: u32
  ntpSyncMillis :: u32
  lastNtpCheckMs :: u32
  breathing :: bool
  breathStart :: u32
  breathDuration :: u32
  lastSummaryDay :: u32
  dailySummary :: string
  fs_ok :: bool
  csv_file :: "string option"
  summary_file :: "string option"

text \<open>The state when \<^verbatim>\<open>setup()\<close> starts: the initialisers of the globals.\<close>

definition boot :: "bool \<Rightarrow> string option \<Rightarrow> string option \<Rightarrow> state" where
  "boot ok csv summ =
     \<lparr>samples = (\<lambda>i. \<lparr>epoch = 0, tempC = Fin 0\<rparr>), sampleCount = 0, lastSampleMs = 0,
      lastNtpSyncSec = 0, ntpSyncMillis = 0, lastNtpCheckMs = 0,
      breathing = False, breathStart = 0, breathDuration = 15000,
      lastSummaryDay = 0, dailySummary = [],
      fs_ok = ok, csv_file = csv, summary_file = summ\<rparr>"

text \<open>The samples the store holds, oldest first: \<^verbatim>\<open>samples[0 .. sampleCount-1]\<close>.\<close>

definition stored :: "state \<Rightarrow> Sample list" where
  "stored st = map (samples st) [0..<sampleCount st]"

subsection \<open>Time\<close>

text \<open>
  \<^verbatim>\<open>getNTPTime()\<close>: 0 when the request cannot be sent or no reply of 48 bytes arrives
  within 1.5 s; otherwise the seconds field of the reply (bytes 40 to 43, big endian)
  minus the 70 years between 1900 and 1970. \<open>Reply\<close> carries the 48 bytes read.
\<close>

datatype ntp_outcome = SendFailed | NoReply | Reply "8 word list"

definition getNTPTime :: "ntp_outcome \<Rightarrow> u32" where
  "getNTPTime r =
     (case r of
        SendFailed \<Rightarrow> 0
      | NoReply \<Rightarrow> 0
      | Reply packet \<Rightarrow>
          (let high = (ucast (packet ! 40) :: u32) * 256 + ucast (packet ! 41);
               low = (ucast (packet ! 42) :: u32) * 256 + ucast (packet ! 43);
               secs = high * 65536 + low
           in secs - 2208988800))"

text \<open>\<^verbatim>\<open>getEpochUTC()\<close>; \<open>ms\<close> is what \<^verbatim>\<open>millis()\<close> returns.\<close>

definition getEpochUTC :: "state \<Rightarrow> u32 \<Rightarrow> u32" where
  "getEpochUTC st ms =
     (if lastNtpSyncSec st = 0 \<or> ntpSyncMillis st = 0
      then ms div 1000
      else lastNtpSyncSec st + (ms - ntpSyncMillis st) div 1000)"

definition getLocalEpoch :: "state \<Rightarrow> u32 \<Rightarrow> u32" where
  "getLocalEpoch st ms = getEpochUTC st ms + TZ_OFFSET_SECONDS"

text \<open>
  The body of \<^verbatim>\<open>if (t) { ... }\<close> after a call of \<^verbatim>\<open>getNTPTime()\<close>, in \<^verbatim>\<open>setup()\<close>
  and in \<^verbatim>\<open>loop()\<close>: \<open>t\<close> is the time received, \<open>ms1\<close> and \<open>ms2\<close> the two readings
  of \<^verbatim>\<open>millis()\<close>.
\<close>

definition ntp_store :: "u32 \<Rightarrow> u32 \<Rightarrow> u32 \<Rightarrow> state \<Rightarrow> state" where
  "ntp_store t ms1 ms2 st =
     (if t \<noteq> 0
      then st\<lparr>lastNtpSyncSec := t, ntpSyncMillis := ms1, lastNtpCheckMs := ms2\<rparr>
      else st)"

text \<open>
  The NTP block of \<^verbatim>\<open>loop()\<close>: \<open>wifi_up\<close> is \<^verbatim>\<open>WiFi.status() == WL_CONNECTED\<close>,
  \<open>ms0\<close> the reading of \<^verbatim>\<open>millis()\<close> in the condition.
\<close>

definition loop_ntp :: "bool \<Rightarrow> u32 \<Rightarrow> ntp_outcome \<Rightarrow> u32 \<Rightarrow> u32 \<Rightarrow> state \<Rightarrow> state" where
  "loop_ntp wifi_up ms0 r ms1 ms2 st =
     (if wifi_up \<and> lastNtpCheckMs st \<noteq> 0 \<and> NTP_SYNC_INTERVAL_MS < ms0 - lastNtpCheckMs st
      then ntp_store (getNTPTime r) ms1 ms2 st
      else st)"

text \<open>The NTP part of \<^verbatim>\<open>setup()\<close>, reached when the WiFi is connected.\<close>

definition setup_ntp :: "ntp_outcome \<Rightarrow> u32 \<Rightarrow> u32 \<Rightarrow> state \<Rightarrow> state" where
  "setup_ntp r ms1 ms2 st = ntp_store (getNTPTime r) ms1 ms2 st"

subsection \<open>The sensor and the LED\<close>

text \<open>\<^verbatim>\<open>readTempC()\<close>, from the 12-bit reading of ADC channel 4.\<close>

definition readTempC :: "16 word \<Rightarrow> cfloat" where
  "readTempC raw =
     (let voltage = real (unat raw) * 3.3 / 4095;
          temp = 27 - (voltage - 0.706) / 0.001721
      in to_float (temp + TEMP_CAL_OFFSET))"

definition startBreathing :: "u32 \<Rightarrow> u32 \<Rightarrow> state \<Rightarrow> state" where
  "startBreathing durationMs ms st =
     st\<lparr>breathing := True, breathStart := ms, breathDuration := durationMs\<rparr>"

subsection \<open>The file system\<close>

definition csv_line :: "u32 \<Rightarrow> cfloat \<Rightarrow> string" where
  "csv_line e t = fmt_u e @ '','' @ fmt_2f t @ [NL]"

text \<open>\<^verbatim>\<open>LittleFS.remove(CSV_PATH)\<close> and \<^verbatim>\<open>LittleFS.remove(SUMMARY_PATH)\<close>.\<close>

definition remove_csv :: "state \<Rightarrow> state" where
  "remove_csv st = (if fs_ok st then st\<lparr>csv_file := None\<rparr> else st)"

definition remove_summary :: "state \<Rightarrow> state" where
  "remove_summary st = (if fs_ok st then st\<lparr>summary_file := None\<rparr> else st)"

text \<open>\<^verbatim>\<open>appendCSV\<close>: the file is opened in append mode, which creates it when absent.\<close>

definition appendCSV :: "u32 \<Rightarrow> cfloat \<Rightarrow> state \<Rightarrow> state" where
  "appendCSV e t st =
     (if fs_ok st
      then st\<lparr>csv_file := Some ((case csv_file st of None \<Rightarrow> [] | Some c \<Rightarrow> c) @ csv_line e t)\<rparr>
      else st)"


definition saveSummary :: "string \<Rightarrow> state \<Rightarrow> state" where
  "saveSummary json st = (if fs_ok st then st\<lparr>summary_file := Some json\<rparr> else st)"

definition loadSummary :: "state \<Rightarrow> string" where
  "loadSummary st =
     (if fs_ok st then (case summary_file st of None \<Rightarrow> ''{}'' | Some s \<Rightarrow> s) else ''{}'')"

text \<open>
  \<^verbatim>\<open>Stream::readStringUntil(c)\<close> on the unread part of a file: the characters before
  the first \<open>c\<close>, and what is left to read after it.
\<close>

definition readStringUntil :: "char \<Rightarrow> string \<Rightarrow> string \<times> string" where
  "readStringUntil c f = (takeWhile (\<lambda>x. x \<noteq> c) f, drop 1 (dropWhile (\<lambda>x. x \<noteq> c) f))"

text \<open>
  What the body of the loop of \<^verbatim>\<open>loadCSV\<close> makes of one line read from the file:
  \<open>None\<close> when it runs into \<^verbatim>\<open>continue\<close>.
\<close>

definition loadCSV_line :: "string \<Rightarrow> Sample option" where
  "loadCSV_line raw =
     (let line = trim raw; comma = indexOf line CHR '','' 0
      in if comma \<le> 0 then None
         else Some \<lparr>epoch = word_of_int (toInt (substring line 0 (nat comma))),
                    tempC = toFloat (substring line (nat comma + 1) (length line))\<rparr>)"

text \<open>The loop of \<^verbatim>\<open>loadCSV\<close>; \<open>f\<close> is the part of the file not yet read.\<close>

function loadCSV_loop :: "string \<Rightarrow> state \<Rightarrow> state" where
  "loadCSV_loop f st =
     (if f \<noteq> [] \<and> sampleCount st < MAX_SAMPLES
      then (case loadCSV_line (fst (readStringUntil NL f)) of
              None \<Rightarrow> loadCSV_loop (snd (readStringUntil NL f)) st
            | Some s \<Rightarrow>
                loadCSV_loop (snd (readStringUntil NL f))
                  (st\<lparr>samples := (samples st)(sampleCount st := s),
                      sampleCount := sampleCount st + 1\<rparr>))
      else st)"
  by pat_completeness auto
termination
proof (relation "measure (\<lambda>(f, st). length f)")
  show "wf (measure (\<lambda>(f, st). length f))"
    by simp
next
  fix f :: string and st :: state
  assume "f \<noteq> [] \<and> sampleCount st < MAX_SAMPLES"
  then have "length (drop 1 (dropWhile (\<lambda>x. x \<noteq> NL) f)) < length f"
    using length_dropWhile_le [of "\<lambda>x. x \<noteq> NL" f] by (cases f) auto
  then show "((snd (readStringUntil NL f), st), f, st) \<in> measure (\<lambda>(f, st). length f)"
    by (simp add: readStringUntil_def)
next
  fix f :: string and st :: state and s :: Sample
  assume "f \<noteq> [] \<and> sampleCount st < MAX_SAMPLES"
  then have "length (drop 1 (dropWhile (\<lambda>x. x \<noteq> NL) f)) < length f"
    using length_dropWhile_le [of "\<lambda>x. x \<noteq> NL" f] by (cases f) auto
  then show "((snd (readStringUntil NL f),
               st\<lparr>samples := (samples st)(sampleCount st := s), sampleCount := sampleCount st + 1\<rparr>),
              f, st) \<in> measure (\<lambda>(f, st). length f)"
    by (simp add: readStringUntil_def)
qed

declare loadCSV_loop.simps [simp del]

definition loadCSV :: "state \<Rightarrow> state" where
  "loadCSV st =
     (let st0 = st\<lparr>sampleCount := 0\<rparr>
      in if \<not> fs_ok st then st0
         else (case csv_file st of None \<Rightarrow> st0 | Some f \<Rightarrow> loadCSV_loop f st0))"

subsection \<open>The sample store\<close>

text \<open>
  \<^verbatim>\<open>memmove(samples, samples + 1, (MAX_SAMPLES - 1) * sizeof(Sample))\<close>: every element
  but the last takes the value of its successor.
\<close>

definition memmove_down :: "(nat \<Rightarrow> Sample) \<Rightarrow> (nat \<Rightarrow> Sample)" where
  "memmove_down a = (\<lambda>i. if i < MAX_SAMPLES - 1 then a (i + 1) else a i)"

text \<open>
  The statement \<^verbatim>\<open>if (sampleCount < MAX_SAMPLES) ... else ...\<close> that stores a sample,
  written out in \<^verbatim>\<open>loop()\<close> and in the import route alike.
\<close>

definition store_sample :: "u32 \<Rightarrow> cfloat \<Rightarrow> state \<Rightarrow> state" where
  "store_sample e t st =
     (if sampleCount st < MAX_SAMPLES
      then st\<lparr>samples := (samples st)(sampleCount st := \<lparr>epoch = e, tempC = t\<rparr>),
              sampleCount := sampleCount st + 1\<rparr>
      else st\<lparr>samples := (memmove_down (samples st))(MAX_SAMPLES - 1 := \<lparr>epoch = e, tempC = t\<rparr>)\<rparr>)"

subsection \<open>Filtering and statistics\<close>

text \<open>
  \<^verbatim>\<open>snprintf(buf, 64, "{\"epoch\":%u,\"temp\":%.2f}", ...)\<close>: at most 63 characters
  are kept.
\<close>

definition json_item :: "Sample \<Rightarrow> string" where
  "json_item s =
     take 63 (''{\"epoch\":'' @ fmt_u (epoch s) @ '',\"temp\":'' @ fmt_2f (tempC s) @ ''}'')"

text \<open>
  One pass of the loop of \<^verbatim>\<open>getFilteredData\<close> over index \<open>i\<close>, on the pair
  (\<^verbatim>\<open>jsonOut\<close>, \<^verbatim>\<open>first\<close>).
\<close>

definition filter_step :: "bool \<Rightarrow> u32 \<Rightarrow> u32 \<Rightarrow> state \<Rightarrow> string \<times> bool \<Rightarrow> nat \<Rightarrow> string \<times> bool" where
  "filter_step isDaily now cutoff st acc i =
     (let local = epoch (samples st i) + TZ_OFFSET_SECONDS;
          inPeriod = (cutoff \<le> local);
          inPeriod = (if isDaily then inPeriod \<and> local div 86400 = now div 86400 else inPeriod)
      in if inPeriod
         then ((if \<not> snd acc then fst acc @ '','' else fst acc) @ json_item (samples st i), False)
         else acc)"

definition getFilteredData :: "bool \<Rightarrow> u32 \<Rightarrow> state \<Rightarrow> string" where
  "getFilteredData isDaily ms st =
     (if sampleCount st = 0 then ''[]''
      else
        (let now = getLocalEpoch st ms;
             cutoff = (if isDaily then now - now mod 86400 else now - 7 * 86400)
         in fst (foldl (filter_step isDaily now cutoff st) (''['', True) [0..<sampleCount st])
            @ '']''))"

text \<open>
  One pass of the loop of \<^verbatim>\<open>generateSummary\<close> over index \<open>i\<close>, on the variables
  (\<^verbatim>\<open>sum\<close>, \<^verbatim>\<open>min\<close>, \<^verbatim>\<open>max\<close>, \<^verbatim>\<open>cnt\<close>).
\<close>

definition summary_step ::
  "bool \<Rightarrow> u32 \<Rightarrow> u32 \<Rightarrow> state \<Rightarrow> cfloat \<times> cfloat \<times> cfloat \<times> nat \<Rightarrow> nat
     \<Rightarrow> cfloat \<times> cfloat \<times> cfloat \<times> nat" where
  "summary_step daily now cutoff st acc i =
     (case acc of
        (sm, mn, mx, cnt) \<Rightarrow>
          (let local = epoch (samples st i) + TZ_OFFSET_SECONDS;
               inPeriod = (cutoff \<le> local);
               inPeriod = (if daily then inPeriod \<and> local div 86400 = now div 86400 else inPeriod)
           in if inPeriod
              then (let t = tempC (samples st i)
                    in (fadd sm t, (if flt t mn then t else mn), (if flt mx t then t else mx),
                        cnt + 1))
              else acc))"

text \<open>
  The values \<^verbatim>\<open>generateSummary\<close> hands to \<^verbatim>\<open>snprintf\<close>: the local time, the count,
  the average, the minimum, the maximum and the trend.
\<close>

record summary_values =
  sv_now :: u32
  sv_cnt :: nat
  sv_avg :: cfloat
  sv_min :: cfloat
  sv_max :: cfloat
  sv_trend :: string

text \<open>
  \<^verbatim>\<open>generateSummary\<close> up to the formatting: the message it returns when there is
  nothing to summarise (\<open>Inl\<close>), or the values it formats (\<open>Inr\<close>).
\<close>

definition summarize :: "bool \<Rightarrow> u32 \<Rightarrow> state \<Rightarrow> string + summary_values" where
  "summarize daily ms st =
     (if sampleCount st = 0
      then Inl (if daily then ''{\"error\":\"No data\"}'' else ''{\"error\":\"No weekly data\"}'')
      else
        (let now = getLocalEpoch st ms;
             cutoff = (if daily then now - now mod 86400 else now - 7 * 86400)
         in case foldl (summary_step daily now cutoff st) (Fin 0, Fin 200, Fin (- 200), 0)
                   [0..<sampleCount st] of
              (sm, mn, mx, cnt) \<Rightarrow>
                if cnt = 0
                then Inl (if daily then ''{\"error\":\"No samples today\"}''
                          else ''{\"error\":\"No weekly data\"}'')
                else
                  (let avg = fdiv sm cnt;
                       trend = (if flt (fsub mx mn) (Fin 1) then ''Stable''
                                else if flt (fsub mx mn) (Fin 3) then ''Mild'' else ''Variable'')
                   in Inr \<lparr>sv_now = now, sv_cnt = cnt, sv_avg = avg, sv_min = mn, sv_max = mx,
                            sv_trend = trend\<rparr>)))"

text \<open>
  \<^verbatim>\<open>generateSummary\<close>: the values formatted into a buffer of 350 bytes. \<open>formatDate\<close>
  stands for the function of that name, which prints the date with the C library's
  \<^verbatim>\<open>localtime_r\<close> and \<^verbatim>\<open>strftime\<close>.
\<close>

definition generateSummary :: "(u32 \<Rightarrow> string) \<Rightarrow> bool \<Rightarrow> u32 \<Rightarrow> state \<Rightarrow> string" where
  "generateSummary formatDate daily ms st =
     (case summarize daily ms st of
        Inl msg \<Rightarrow> msg
      | Inr v \<Rightarrow>
          if daily
          then take 349
                 (''{\"date\":\"'' @ formatDate (sv_now v) @ ''\",\"samples\":'' @ show_nat (sv_cnt v) @
                  '',\"avg\":'' @ fmt_2f (sv_avg v) @ '',\"min\":'' @ fmt_2f (sv_min v) @
                  '',\"max\":'' @ fmt_2f (sv_max v) @ '',\"trend\":\"'' @ sv_trend v @ ''\"}'')
          else take 349
                 (''{\"period\":\"Last 7 days\",\"samples\":'' @ show_nat (sv_cnt v) @
                  '',\"avg\":'' @ fmt_2f (sv_avg v) @ '',\"min\":'' @ fmt_2f (sv_min v) @
                  '',\"max\":'' @ fmt_2f (sv_max v) @ ''}''))"

subsection \<open>The HTTP routes\<close>

text \<open>The arguments of \<^verbatim>\<open>send\<close>: the status line, the content type and the body.\<close>

record response =
  r_status :: string
  r_type :: string
  r_body :: string

definition send :: "string \<Rightarrow> string \<Rightarrow> string \<Rightarrow> response" where
  "send st ty b = \<lparr>r_status = st, r_type = ty, r_body = b\<rparr>"

text \<open>
  What the body of the import loop makes of one line cut from the request body:
  \<open>None\<close> when it runs into \<^verbatim>\<open>continue\<close>.
\<close>

definition import_line :: "string \<Rightarrow> Sample option" where
  "import_line raw =
     (let line = trim raw
      in if length line = 0 then None
         else (let c = indexOf line CHR '','' 0
               in if c \<le> 0 then None
                  else Some \<lparr>epoch = word_of_int (toInt (substring line 0 (nat c))),
                             tempC = toFloat (substring line (nat c + 1) (length line))\<rparr>))"

text \<open>
  \<^verbatim>\<open>int nl = body.indexOf('\n', pos); if (nl == -1) nl = body.length();\<close>
\<close>

definition line_end :: "string \<Rightarrow> nat \<Rightarrow> nat" where
  "line_end body pos =
     (if indexOf body NL pos = - 1 then length body else nat (indexOf body NL pos))"

text \<open>
  The loop of the import route, on the position \<^verbatim>\<open>pos\<close> in the body, the state
  and the counter \<^verbatim>\<open>imported\<close>.
\<close>

function import_loop :: "string \<Rightarrow> nat \<Rightarrow> state \<times> nat \<Rightarrow> state \<times> nat" where
  "import_loop body pos (st, imported) =
     (if pos < length body
      then (let nl = line_end body pos
            in case import_line (substring body pos nl) of
                 None \<Rightarrow> import_loop body (nl + 1) (st, imported)
               | Some s \<Rightarrow>
                   import_loop body (nl + 1)
                     (appendCSV (epoch s) (tempC s) (store_sample (epoch s) (tempC s) st),
                      imported + 1))
      else (st, imported))"
  by pat_completeness auto
termination
  by (relation "measure (\<lambda>(body, pos, acc). length body - pos)")
     (auto simp: line_end_def indexOf_def Let_def split: if_splits)

declare import_loop.simps [simp del]

text \<open>\<^verbatim>\<open>/data.json\<close> and \<^verbatim>\<open>/data.csv\<close>: the whole store.\<close>

definition data_json :: "state \<Rightarrow> string" where
  "data_json st =
     foldl (\<lambda>json i. json @ json_item (samples st i) @
                       (if int i < int (sampleCount st) - 1 then '','' else []))
       ''['' [0..<sampleCount st] @ '']''"

definition data_csv :: "state \<Rightarrow> string" where
  "data_csv st =
     foldl (\<lambda>csv i. csv @ take 63 (csv_line (epoch (samples st i)) (tempC (samples st i))))
       (''epoch,temp'' @ [NL]) [0..<sampleCount st]"

text \<open>
  \<^verbatim>\<open>handleClient\<close> once the request is read: the routes, in the order of the source.
  \<open>html\<close> is the dashboard page, a literal of the source; \<open>msD\<close>, \<open>msW\<close> and \<open>msL\<close> are
  the readings of \<^verbatim>\<open>millis()\<close> taken by the daily summary (or the filter), by the
  weekly summary and by \<^verbatim>\<open>startBreathing\<close>.
\<close>

definition handleClient ::
  "(u32 \<Rightarrow> string) \<Rightarrow> string \<Rightarrow> string \<Rightarrow> string \<Rightarrow> string \<Rightarrow> u32 \<Rightarrow> u32 \<Rightarrow> u32 \<Rightarrow> state
     \<Rightarrow> state \<times> response" where
  "handleClient formatDate html meth path body msD msW msL st =
     (if path = ''/'' \<and> meth = ''GET''
      then (st, send ''200 OK'' ''text/html'' html)
      else if path = ''/data.json''
      then (st, send ''200 OK'' ''application/json'' (data_json st))
      else if path = ''/data_daily.json'' \<or> path = ''/data_weekly.json''
      then (st, send ''200 OK'' ''application/json''
                  (getFilteredData (path = ''/data_daily.json'') msD st))
      else if path = ''/data.csv''
      then (st, send ''200 OK'' ''text/csv'' (data_csv st))
      else if path = ''/summary''
      then (st, send ''200 OK'' ''application/json''
                  (''{\"daily\":'' @ generateSummary formatDate True msD st @
                   '',\"weekly\":'' @ generateSummary formatDate False msW st @ ''}''))
      else if path = ''/clear'' \<and> meth = ''POST''
      then ((remove_summary (remove_csv st))\<lparr>sampleCount := 0\<rparr>,
            send ''200 OK'' ''text/plain'' ''Data cleared successfully'')
      else if path = ''/import'' \<and> meth = ''POST''
      then (case import_loop body 0 ((remove_csv st)\<lparr>sampleCount := 0\<rparr>, 0) of
              (st', imported) \<Rightarrow>
                (st', send ''200 OK'' ''text/plain'' (''Imported: '' @ show_nat imported)))
      else if path = ''/gen_daily''
      then (let d = generateSummary formatDate True msD st;
                st1 = st\<lparr>dailySummary := d\<rparr>;
                full = ''{\"daily\":'' @ d @ '',\"weekly\":'' @
                       generateSummary formatDate False msW st1 @ ''}''
            in (startBreathing 15000 msL (saveSummary full st1),
                send ''200 OK'' ''text/plain'' d))
      else (st, send ''404 Not Found'' ''text/plain'' ''Not found''))"

subsection \<open>The sampling block of the main loop\<close>

text \<open>
  The block \<^verbatim>\<open>if (millis() - lastSampleMs >= SAMPLE_INTERVAL_MS) { ... }\<close> of
  \<^verbatim>\<open>loop()\<close>. \<open>ms0\<close> to \<open>ms5\<close> are the readings of \<^verbatim>\<open>millis()\<close> in the order the
  block takes them (the condition, \<^verbatim>\<open>lastSampleMs\<close>, \<^verbatim>\<open>getEpochUTC\<close>, the two
  summaries, \<^verbatim>\<open>startBreathing\<close>), \<open>raw\<close> is the ADC reading.
\<close>

definition loop_sample ::
  "(u32 \<Rightarrow> string) \<Rightarrow> u32 \<Rightarrow> u32 \<Rightarrow> 16 word \<Rightarrow> u32 \<Rightarrow> u32 \<Rightarrow> u32 \<Rightarrow> u32 \<Rightarrow> state \<Rightarrow> state" where
  "loop_sample formatDate ms0 ms1 raw ms2 ms3 ms4 ms5 st =
     (if SAMPLE_INTERVAL_MS \<le> ms0 - lastSampleMs st
      then (let st1 = st\<lparr>lastSampleMs := ms1\<rparr>;
                temp = readTempC raw;
                e = getEpochUTC st1 ms2;
                st2 = appendCSV e temp (store_sample e temp st1);
                localDay = (e + TZ_OFFSET_SECONDS) div 86400;
                st3 = (if lastSummaryDay st2 \<noteq> 0 \<and> localDay \<noteq> lastSummaryDay st2
                       then (let d = generateSummary formatDate True ms3 st2;
                                 st2' = st2\<lparr>dailySummary := d\<rparr>;
                                 full = ''{\"daily\":'' @ d @ '',\"weekly\":'' @
                                        generateSummary formatDate False ms4 st2' @ ''}''
                             in startBreathing 20000 ms5 (saveSummary full st2'))
                       else st2)
            in st3\<lparr>lastSummaryDay := localDay\<rparr>)
      else st)"

subsection \<open>Start-up and the executions of the sketch\<close>

text \<open>
  \<^verbatim>\<open>updateBreathing\<close>: the animation ends once its duration has passed (the PWM level
  it sets is not part of the state).
\<close>

definition updateBreathing :: "u32 \<Rightarrow> state \<Rightarrow> state" where
  "updateBreathing ms st =
     (if \<not> breathing st then st
      else if breathDuration st \<le> ms - breathStart st then st\<lparr>breathing := False\<rparr>
      else st)"

text \<open>
  What \<^verbatim>\<open>setup()\<close> does to the state: the file is loaded, the time is asked for when
  the WiFi came up, and the first sample is scheduled ten seconds later.
\<close>

definition setup_sketch :: "bool \<Rightarrow> ntp_outcome \<Rightarrow> u32 \<Rightarrow> u32 \<Rightarrow> u32 \<Rightarrow> u32 \<Rightarrow> state \<Rightarrow> state" where
  "setup_sketch wifi_up r ms1 ms2 ms3 ms4 st =
     (let st1 = loadCSV st;
          st2 = (if wifi_up then startBreathing 10000 ms3 (setup_ntp r ms1 ms2 st1) else st1)
      in st2\<lparr>lastSampleMs := ms4 - SAMPLE_INTERVAL_MS + 10000\<rparr>)"

text \<open>
  An execution is \<^verbatim>\<open>setup()\<close> followed by passes of \<^verbatim>\<open>loop()\<close>, and a pass is a
  request served (when one is pending), \<^verbatim>\<open>updateBreathing\<close>, the NTP block and the
  sampling block. Each of these is an event with the inputs it reads; a run applies a
  list of events in order.
\<close>

datatype event =
    Setup bool ntp_outcome u32 u32 u32 u32
  | Client string string string u32 u32 u32
  | Breathe u32
  | NtpCheck bool u32 ntp_outcome u32 u32
  | SampleCheck u32 u32 "16 word" u32 u32 u32 u32

fun step :: "(u32 \<Rightarrow> string) \<Rightarrow> string \<Rightarrow> state \<Rightarrow> event \<Rightarrow> state" where
  "step formatDate html st (Setup w r ms1 ms2 ms3 ms4) = setup_sketch w r ms1 ms2 ms3 ms4 st"
| "step formatDate html st (Client meth path body msD msW msL) =
     fst (handleClient formatDate html meth path body msD msW msL st)"
| "step formatDate html st (Breathe ms) = updateBreathing ms st"
| "step formatDate html st (NtpCheck w ms0 r ms1 ms2) = loop_ntp w ms0 r ms1 ms2 st"
| "step formatDate html st (SampleCheck ms0 ms1 raw ms2 ms3 ms4 ms5) =
     loop_sample formatDate ms0 ms1 raw ms2 ms3 ms4 ms5 st"

definition run :: "(u32 \<Rightarrow> string) \<Rightarrow> string \<Rightarrow> state \<Rightarrow> event list \<Rightarrow> state" where
  "run formatDate html st evs = foldl (step formatDate html) st evs"

text \<open>The time an event receives from the NTP server: 0 when it receives none.\<close>

fun ntp_time :: "event \<Rightarrow> u32" where
  "ntp_time (Setup w r ms1 ms2 ms3 ms4) = (if w then getNTPTime r else 0)"
| "ntp_time (NtpCheck w ms0 r ms1 ms2) = getNTPTime r"
| "ntp_time (Client meth path body msD msW msL) = 0"
| "ntp_time (Breathe ms) = 0"
| "ntp_time (SampleCheck ms0 ms1 raw ms2 ms3 ms4 ms5) = 0"

subsection \<open>Notions the properties are stated with\<close>

text \<open>A sequence of appends: the storing statement run once per sample, in order.\<close>

definition store_all :: "Sample list \<Rightarrow> state \<Rightarrow> state" where
  "store_all xs st = foldl (\<lambda>s x. store_sample (epoch x) (tempC x) s) st xs"

text \<open>
  The value of \<^verbatim>\<open>inPeriod\<close> that both loops compute for a sample, given the local
  time \<open>now\<close>.
\<close>

definition in_period :: "bool \<Rightarrow> u32 \<Rightarrow> Sample \<Rightarrow> bool" where
  "in_period daily now s =
     (let cutoff = (if daily then now - now mod 86400 else now - 7 * 86400);
          local = epoch s + TZ_OFFSET_SECONDS
      in if daily then cutoff \<le> local \<and> local div 86400 = now div 86400 else cutoff \<le> local)"

text \<open>
  The daily window in the specification's words: the local time of the sample lies in
  the interval from \<open>now - now mod 86400\<close> (included) to 86400 seconds later
  (excluded), as numbers.
\<close>

definition daily_window :: "u32 \<Rightarrow> Sample \<Rightarrow> bool" where
  "daily_window now s =
     (let lo = unat now - unat now mod 86400;
          local = unat (epoch s + TZ_OFFSET_SECONDS)
      in lo \<le> local \<and> local < lo + 86400)"

text \<open>Strings joined by commas.\<close>

fun join_comma :: "string list \<Rightarrow> string" where
  "join_comma [] = []"
| "join_comma [x] = x"
| "join_comma (x # y # ys) = x @ '','' @ join_comma (y # ys)"







text \<open>
  A field that is not a number: after white space and a sign it does not start with a
  digit, nor, for a temperature, with a point and a digit.
\<close>

definition non_numeric_int :: "string \<Rightarrow> bool" where
  "non_numeric_int f =
     (case snd (strip_sign (dropWhile isspace f)) of [] \<Rightarrow> True | c # r \<Rightarrow> \<not> isdigit c)"

definition non_numeric_float :: "string \<Rightarrow> bool" where
  "non_numeric_float f =
     (case snd (strip_sign (dropWhile isspace f)) of
        [] \<Rightarrow> True
      | c # r \<Rightarrow> \<not> isdigit c \<and> \<not> (c = CHR ''.'' \<and> r \<noteq> [] \<and> isdigit (hd r)))"

text \<open>
  The words that \<^verbatim>\<open>strtod\<close> reads as an infinity or as NaN, after white space and a
  sign, in any case of their letters.
\<close>

definition spells_inf :: "string \<Rightarrow> bool" where
  "spells_inf f = starts_with ''inf'' (snd (strip_sign (dropWhile isspace f)))"

definition spells_nan :: "string \<Rightarrow> bool" where
  "spells_nan f = starts_with ''nan'' (snd (strip_sign (dropWhile isspace f)))"

text \<open>The trend label for a spread of temperatures, in the specification's words.\<close>

definition trend_of :: "real \<Rightarrow> string" where
  "trend_of d = (if d < 1 then ''Stable'' else if d < 3 then ''Mild'' else ''Variable'')"

text \<open>
  The temperatures of the samples in the window, in the order of the store; \<open>ms\<close> is
  the reading of \<^verbatim>\<open>millis()\<close> the time is taken from.
\<close>

definition window_temps :: "bool \<Rightarrow> u32 \<Rightarrow> state \<Rightarrow> cfloat list" where
  "window_temps daily ms st =
     map tempC (filter (in_period daily (getLocalEpoch st ms)) (stored st))"

text \<open>The two variables \<^verbatim>\<open>getEpochUTC\<close> reads.\<close>

definition clock_of :: "state \<Rightarrow> u32 \<times> u32" where
  "clock_of st = (lastNtpSyncSec st, ntpSyncMillis st)"

section \<open>The sample store keeps the newest samples\<close>

lemma MAX_SAMPLES_pos: "0 < MAX_SAMPLES"
  by (simp add: MAX_SAMPLES_def)

lemma sampleCount_store_sample:
  "sampleCount (store_sample e t st) =
     (if sampleCount st < MAX_SAMPLES then sampleCount st + 1 else sampleCount st)"
  by (simp add: store_sample_def)

lemma stored_store_sample_room:
  assumes "sampleCount st < MAX_SAMPLES"
  shows "stored (store_sample e t st) = stored st @ [\<lparr>epoch = e, tempC = t\<rparr>]"
  using assms by (simp add: store_sample_def stored_def)

text \<open>At capacity the element at index 0 goes, the others move down, the new one is last.\<close>

lemma stored_store_sample_full:
  assumes "sampleCount st = MAX_SAMPLES"
  shows "stored (store_sample e t st) = tl (stored st) @ [\<lparr>epoch = e, tempC = t\<rparr>]"
proof (rule nth_equalityI)
  show "length (stored (store_sample e t st)) = length (tl (stored st) @ [\<lparr>epoch = e, tempC = t\<rparr>])"
    using assms MAX_SAMPLES_pos by (simp add: store_sample_def stored_def)
next
  fix i
  assume "i < length (stored (store_sample e t st))"
  then have i: "i < MAX_SAMPLES"
    using assms by (simp add: store_sample_def stored_def)
  show "stored (store_sample e t st) ! i = (tl (stored st) @ [\<lparr>epoch = e, tempC = t\<rparr>]) ! i"
  proof (cases "i = MAX_SAMPLES - 1")
    case True
    then show ?thesis
      using assms i by (simp add: store_sample_def stored_def nth_append)
  next
    case False
    with i have "i < MAX_SAMPLES - 1" by simp
    then show ?thesis
      using assms i by (simp add: store_sample_def stored_def nth_append nth_tl memmove_down_def)
  qed
qed

lemma store_all_stored:
  assumes "sampleCount st \<le> MAX_SAMPLES"
  shows "sampleCount (store_all xs st) = min MAX_SAMPLES (sampleCount st + length xs) \<and>
         stored (store_all xs st) =
           drop (sampleCount st + length xs - MAX_SAMPLES) (stored st @ xs)"
  using assms
proof (induction xs arbitrary: st)
  case Nil
  then show ?case by (simp add: stored_def store_all_def)
next
  case (Cons x xs)
  let ?st = "store_sample (epoch x) (tempC x) st"
  have le: "sampleCount ?st \<le> MAX_SAMPLES"
    using Cons.prems by (simp add: sampleCount_store_sample)
  have unfold: "store_all (x # xs) st = store_all xs ?st"
    by (simp add: store_all_def)
  have sx: "\<lparr>epoch = epoch x, tempC = tempC x\<rparr> = x"
    by simp
  note IH = Cons.IH [OF le]
  show ?case
  proof (cases "sampleCount st < MAX_SAMPLES")
    case True
    have "stored ?st = stored st @ [x]"
      using stored_store_sample_room [OF True, of "epoch x" "tempC x"] sx by simp
    then show ?thesis
      using IH unfold True by (simp add: sampleCount_store_sample)
  next
    case False
    with Cons.prems have full: "sampleCount st = MAX_SAMPLES" by simp
    have len: "length (stored st) = MAX_SAMPLES"
      using full by (simp add: stored_def)
    then obtain y ys where ys: "stored st = y # ys"
      using MAX_SAMPLES_pos by (cases "stored st") auto
    have "stored ?st = tl (stored st) @ [x]"
      using stored_store_sample_full [OF full, of "epoch x" "tempC x"] sx by simp
    then show ?thesis
      using IH unfold full len ys by (simp add: sampleCount_store_sample)
  qed
qed

text \<open>
  The sampling block of \<^verbatim>\<open>loop()\<close>, when the interval has passed, stores exactly one
  sample with the storing statement: the time of \<^verbatim>\<open>getEpochUTC\<close> and the sensor's
  temperature.
\<close>

lemma loop_sample_stored:
  assumes "SAMPLE_INTERVAL_MS \<le> ms0 - lastSampleMs st"
  shows "stored (loop_sample formatDate ms0 ms1 raw ms2 ms3 ms4 ms5 st) =
           stored (store_sample (getEpochUTC st ms2) (readTempC raw) st) \<and>
         sampleCount (loop_sample formatDate ms0 ms1 raw ms2 ms3 ms4 ms5 st) =
           sampleCount (store_sample (getEpochUTC st ms2) (readTempC raw) st)"
  using assms
  by (simp add: loop_sample_def Let_def stored_def store_sample_def appendCSV_def
      startBreathing_def saveSummary_def getEpochUTC_def)

text \<open>
  Claim C1. Whatever the store holds (at most \<open>MAX_SAMPLES = 2000\<close> samples), after
  more than \<open>MAX_SAMPLES\<close> appends its size is \<open>MAX_SAMPLES\<close> and it holds the last
  \<open>MAX_SAMPLES\<close> samples appended, in the order they were appended; and one more
  append then drops the element at index 0, moves the others down by one and puts the
  new sample last.
\<close>

theorem store_keeps_newest:
  assumes "sampleCount st \<le> MAX_SAMPLES" and "MAX_SAMPLES < length xs"
  shows "sampleCount (store_all xs st) = MAX_SAMPLES \<and>
         stored (store_all xs st) = drop (length xs - MAX_SAMPLES) xs \<and>
         (\<forall>e t. stored (store_sample e t (store_all xs st)) =
                  tl (stored (store_all xs st)) @ [\<lparr>epoch = e, tempC = t\<rparr>] \<and>
                sampleCount (store_sample e t (store_all xs st)) = MAX_SAMPLES)"
proof -
  have len: "length (stored st) = sampleCount st"
    by (simp add: stored_def)
  have cnt: "sampleCount (store_all xs st) = MAX_SAMPLES"
    using store_all_stored [OF assms(1), of xs] assms(2) by simp
  have "stored (store_all xs st) =
          drop (sampleCount st + length xs - MAX_SAMPLES) (stored st @ xs)"
    using store_all_stored [OF assms(1), of xs] by simp
  also have "\<dots> = drop (length xs - MAX_SAMPLES) xs"
    using assms(2) len by simp
  finally have sto: "stored (store_all xs st) = drop (length xs - MAX_SAMPLES) xs" .
  show ?thesis
    using cnt sto stored_store_sample_full [OF cnt]
    by (simp add: sampleCount_store_sample)
qed

theorem store_keeps_newest_witness:
  "sampleCount (store_all (map (\<lambda>i. \<lparr>epoch = of_nat i, tempC = Fin 20\<rparr>) [0..<2001])
     (boot True None None)) = MAX_SAMPLES \<and>
   stored (store_all (map (\<lambda>i. \<lparr>epoch = of_nat i, tempC = Fin 20\<rparr>) [0..<2001])
     (boot True None None)) =
     drop (2001 - MAX_SAMPLES) (map (\<lambda>i. \<lparr>epoch = of_nat i, tempC = Fin 20\<rparr>) [0..<2001])"
  using store_keeps_newest [of "boot True None None"
      "map (\<lambda>i. \<lparr>epoch = of_nat i, tempC = Fin 20\<rparr>) [0..<2001]"]
  by (simp add: boot_def MAX_SAMPLES_def)

section \<open>The clock\<close>

text \<open>Only the NTP code writes the two variables the time is computed from.\<close>

lemma clock_of_updates [simp]:
  "clock_of (st\<lparr>sampleCount := n\<rparr>) = clock_of st"
  "clock_of (st\<lparr>samples := a\<rparr>) = clock_of st"
  "clock_of (st\<lparr>dailySummary := d\<rparr>) = clock_of st"
  "clock_of (st\<lparr>lastSampleMs := ms\<rparr>) = clock_of st"
  "clock_of (st\<lparr>lastSummaryDay := day\<rparr>) = clock_of st"
  "clock_of (st\<lparr>breathing := b\<rparr>) = clock_of st"
  by (simp_all add: clock_of_def)

lemma clock_of_files [simp]:
  "clock_of (remove_csv st) = clock_of st"
  "clock_of (remove_summary st) = clock_of st"
  "clock_of (saveSummary json st) = clock_of st"
  "clock_of (appendCSV e t st) = clock_of st"
  by (simp_all add: clock_of_def remove_csv_def remove_summary_def saveSummary_def appendCSV_def)

lemma clock_of_store_sample [simp]: "clock_of (store_sample e t st) = clock_of st"
  by (simp add: clock_of_def store_sample_def)

lemma clock_of_startBreathing [simp]: "clock_of (startBreathing d ms st) = clock_of st"
  by (simp add: clock_of_def startBreathing_def)

lemma clock_of_import_loop:
  "clock_of (fst (import_loop body pos acc)) = clock_of (fst acc)"
proof (induction body pos acc rule: import_loop.induct)
  case (1 body pos st imported)
  show ?case
    using "1.IH" by (subst import_loop.simps) (simp add: Let_def split: option.splits)
qed

lemma clock_of_loadCSV_loop: "clock_of (loadCSV_loop f st) = clock_of st"
proof (induction f st rule: loadCSV_loop.induct)
  case (1 f st)
  show ?case
    using "1.IH" by (subst loadCSV_loop.simps) (simp split: option.splits)
qed

lemma clock_of_loadCSV: "clock_of (loadCSV st) = clock_of st"
  by (simp add: loadCSV_def Let_def clock_of_loadCSV_loop split: option.splits)

lemma clock_of_handleClient:
  "clock_of (fst (handleClient formatDate html meth path body msD msW msL st)) = clock_of st"
proof -
  obtain st' n where imp: "import_loop body 0 ((remove_csv st)\<lparr>sampleCount := 0\<rparr>, 0) = (st', n)"
    by (cases "import_loop body 0 ((remove_csv st)\<lparr>sampleCount := 0\<rparr>, 0)") auto
  have "clock_of st' = clock_of st"
    using clock_of_import_loop [of body 0 "((remove_csv st)\<lparr>sampleCount := 0\<rparr>, 0)"] imp
    by simp
  then show ?thesis
    using imp by (simp add: handleClient_def Let_def)
qed

lemma clock_of_loop_sample:
  "clock_of (loop_sample formatDate ms0 ms1 raw ms2 ms3 ms4 ms5 st) = clock_of st"
  by (simp add: loop_sample_def Let_def)

lemma clock_of_updateBreathing: "clock_of (updateBreathing ms st) = clock_of st"
  by (simp add: updateBreathing_def)

lemma clock_of_ntp_store:
  "clock_of (ntp_store t ms1 ms2 st) = (if t \<noteq> 0 then (t, ms1) else clock_of st)"
  by (simp add: ntp_store_def clock_of_def)

lemma clock_of_step:
  assumes "ntp_time ev = 0"
  shows "clock_of (step formatDate html st ev) = clock_of st"
proof (cases ev)
  case (Setup w r ms1 ms2 ms3 ms4)
  then show ?thesis
    using assms
    by (auto simp: setup_sketch_def Let_def setup_ntp_def clock_of_ntp_store clock_of_loadCSV
        split: if_splits)
next
  case (Client meth path body msD msW msL)
  then show ?thesis by (simp add: clock_of_handleClient)
next
  case (Breathe ms)
  then show ?thesis by (simp add: clock_of_updateBreathing)
next
  case (NtpCheck w ms0 r ms1 ms2)
  then show ?thesis using assms by (simp add: loop_ntp_def clock_of_ntp_store)
next
  case (SampleCheck ms0 ms1 raw ms2 ms3 ms4 ms5)
  then show ?thesis by (simp add: clock_of_loop_sample)
qed

lemma clock_of_run:
  assumes "\<forall>ev\<in>set evs. ntp_time ev = 0"
  shows "clock_of (run formatDate html st evs) = clock_of st"
  using assms
proof (induction evs arbitrary: st)
  case Nil
  then show ?case by (simp add: run_def)
next
  case (Cons ev evs)
  have "run formatDate html st (ev # evs) = run formatDate html (step formatDate html st ev) evs"
    by (simp add: run_def)
  then show ?case
    using Cons by (simp add: clock_of_step)
qed

lemma getEpochUTC_clock_of:
  "getEpochUTC st ms =
     (if fst (clock_of st) = 0 \<or> snd (clock_of st) = 0 then ms div 1000
      else fst (clock_of st) + (ms - snd (clock_of st)) div 1000)"
  by (simp add: getEpochUTC_def clock_of_def)

lemma div1000_mono: "(a::u32) \<le> b \<Longrightarrow> a div 1000 \<le> b div 1000"
  by (simp add: word_le_nat_alt unat_div div_le_mono)

lemma getEpochUTC_mono_fixed:
  assumes "ntpSyncMillis st \<le> ms1" and "ms1 \<le> ms2"
    and "unat (lastNtpSyncSec st) + unat (ms2 - ntpSyncMillis st) div 1000 < 2 ^ 32"
  shows "getEpochUTC st ms1 \<le> getEpochUTC st ms2"
proof (cases "lastNtpSyncSec st = 0 \<or> ntpSyncMillis st = 0")
  case True
  then show ?thesis
    using assms(2) by (auto simp: getEpochUTC_def div1000_mono)
next
  case False
  let ?a = "lastNtpSyncSec st" and ?m = "ntpSyncMillis st"
  have "unat (ms1 - ?m) = unat ms1 - unat ?m" "unat (ms2 - ?m) = unat ms2 - unat ?m"
    using assms(1,2) by (simp_all add: unat_sub)
  then have "ms1 - ?m \<le> ms2 - ?m"
    using assms(2) by (simp add: word_le_nat_alt diff_le_mono)
  then have xy: "(ms1 - ?m) div 1000 \<le> (ms2 - ?m) div 1000"
    by (rule div1000_mono)
  have y: "unat ?a + unat ((ms2 - ?m) div 1000) < 2 ^ 32"
    using assms(3) by (simp add: unat_div)
  have x: "unat ?a + unat ((ms1 - ?m) div 1000) < 2 ^ 32"
    using y xy by (simp add: word_le_nat_alt)
  have "unat (?a + (ms1 - ?m) div 1000) = unat ?a + unat ((ms1 - ?m) div 1000)"
    using x unat_add_lem [of ?a "(ms1 - ?m) div 1000"] by simp
  moreover have "unat (?a + (ms2 - ?m) div 1000) = unat ?a + unat ((ms2 - ?m) div 1000)"
    using y unat_add_lem [of ?a "(ms2 - ?m) div 1000"] by simp
  ultimately have "?a + (ms1 - ?m) div 1000 \<le> ?a + (ms2 - ?m) div 1000"
    using xy by (simp add: word_le_nat_alt)
  then show ?thesis
    using False by (simp add: getEpochUTC_def)
qed

lemma getEpochUTC_cong: "clock_of st = clock_of st' \<Longrightarrow> getEpochUTC st ms = getEpochUTC st' ms"
  by (simp add: getEpochUTC_clock_of)

text \<open>
  What \<^verbatim>\<open>getEpochUTC\<close> returns in an execution. From the initial state, as long as
  no NTP exchange has delivered a time, it is the millisecond counter divided by 1000.
  After an exchange that delivered the time \<open>t\<close> (not 0) while \<^verbatim>\<open>millis()\<close> read
  \<open>m\<close>, \<open>m\<close> not 0, and as long as no later exchange delivers a time, it is \<open>t\<close> plus
  the milliseconds since \<open>m\<close> divided by 1000 (in 32-bit arithmetic).
\<close>

lemma getEpochUTC_run:
  assumes "\<forall>ev\<in>set evs. ntp_time ev = 0" and "t \<noteq> 0" and "m \<noteq> 0"
  shows "getEpochUTC (run formatDate html (boot ok csv summ) evs) ms = ms div 1000 \<and>
         getEpochUTC (run formatDate html (ntp_store t m m' st) evs) ms = t + (ms - m) div 1000"
proof -
  have "clock_of (run formatDate html (boot ok csv summ) evs) = (0, 0)"
    using clock_of_run [OF assms(1)] by (simp add: clock_of_def boot_def)
  moreover have "clock_of (run formatDate html (ntp_store t m m' st) evs) = (t, m)"
    using clock_of_run [OF assms(1)] assms(2) by (simp add: clock_of_ntp_store)
  ultimately show ?thesis
    using assms(2,3) by (simp add: getEpochUTC_clock_of)
qed

lemma getEpochUTC_run_example:
  "getEpochUTC (run (\<lambda>e. []) [] (boot True None None) [NtpCheck True 5 NoReply 6 7, Breathe 8]) 5000
     = 5000 div 1000 \<and>
   getEpochUTC (run (\<lambda>e. []) [] (ntp_store 1700000000 3000 3001 (boot True None None))
      [NtpCheck True 5 NoReply 6 7, Breathe 8]) 5000 = 1700000000 + (5000 - 3000) div 1000"
  using getEpochUTC_run [of "[NtpCheck True 5 NoReply 6 7, Breathe 8]" 1700000000 3000
      "\<lambda>e. []" "[]" True None None 5000 3001 "boot True None None"]
  by (simp add: getNTPTime_def)

text \<open>
  Claim C6 fails on the code. \<^verbatim>\<open>getEpochUTC\<close> takes the value 0 of
  \<^verbatim>\<open>ntpSyncMillis\<close> to mean that the clock was never set, but 0 is also a reading of
  \<^verbatim>\<open>millis()\<close>. Here the clock was set at tick 4273367196; six hours later, 99 ms
  before the counter wraps, the NTP block asks again, receives the time 1704294967 and
  stores it while \<^verbatim>\<open>millis()\<close> reads 0. Five seconds later \<^verbatim>\<open>getEpochUTC\<close> returns
  5, where the time received plus the seconds since then is 1704294972. As
  \<^verbatim>\<open>lastNtpCheckMs\<close> is 0 as well, the NTP block does nothing from then on, whatever
  it is given.
\<close>

theorem sync_at_tick_zero:
  "getNTPTime (Reply (replicate 40 0 @ [0xE9, 0x3F, 0xF8, 0xB7] @ replicate 4 0)) = 1704294967 \<and>
   loop_ntp True 4294967197
     (Reply (replicate 40 0 @ [0xE9, 0x3F, 0xF8, 0xB7] @ replicate 4 0)) 0 0
     (ntp_store 1704273367 4273367196 4273367196 (boot True None None)) =
   (boot True None None)\<lparr>lastNtpSyncSec := 1704294967, ntpSyncMillis := 0, lastNtpCheckMs := 0\<rparr> \<and>
   getEpochUTC
     ((boot True None None)\<lparr>lastNtpSyncSec := 1704294967, ntpSyncMillis := 0, lastNtpCheckMs := 0\<rparr>)
     5000 = 5 \<and>
   (1704294967 :: u32) + (5000 - 0) div 1000 = 1704294972 \<and>
   (\<forall>w ms0 r m m'.
      loop_ntp w ms0 r m m'
        ((boot True None None)\<lparr>lastNtpSyncSec := 1704294967, ntpSyncMillis := 0,
           lastNtpCheckMs := 0\<rparr>) =
      (boot True None None)\<lparr>lastNtpSyncSec := 1704294967, ntpSyncMillis := 0, lastNtpCheckMs := 0\<rparr>)"
  by (simp add: getEpochUTC_def loop_ntp_def ntp_store_def boot_def getNTPTime_def nth_append
      NTP_SYNC_INTERVAL_MS_def)

text \<open>
  Claim C7, as amended. While no NTP exchange delivers a time, the two clock variables
  keep their values through every event of an execution, and \<^verbatim>\<open>getEpochUTC\<close> does
  not decrease from a reading \<open>ms1\<close> of \<^verbatim>\<open>millis()\<close> to a later reading \<open>ms2\<close>,
  provided the counter has not wrapped since the last exchange and the sum stays below
  \<open>2^32\<close>. The NTP block either leaves the two variables as they are or, having
  received a time that is not 0, sets them to that time and the current tick, whatever
  the time shown before.
\<close>

theorem getEpochUTC_between_syncs:
  assumes "\<forall>ev\<in>set evs. ntp_time ev = 0"
    and "ntpSyncMillis st \<le> ms1" and "ms1 \<le> ms2"
    and "unat (lastNtpSyncSec st) + unat (ms2 - ntpSyncMillis st) div 1000 < 2 ^ 32"
  shows "getEpochUTC st ms1 \<le> getEpochUTC (run formatDate html st evs) ms2 \<and>
         clock_of (run formatDate html st evs) = clock_of st \<and>
         (\<forall>w ms0 r m m'.
            clock_of (loop_ntp w ms0 r m m' st) = clock_of st \<or>
            getNTPTime r \<noteq> 0 \<and> clock_of (loop_ntp w ms0 r m m' st) = (getNTPTime r, m))"
proof -
  have same: "clock_of (run formatDate html st evs) = clock_of st"
    using assms(1) by (rule clock_of_run)
  have "getEpochUTC (run formatDate html st evs) ms2 = getEpochUTC st ms2"
    using same by (rule getEpochUTC_cong)
  moreover have "getEpochUTC st ms1 \<le> getEpochUTC st ms2"
    using assms(2-4) by (rule getEpochUTC_mono_fixed)
  ultimately show ?thesis
    using same by (simp add: loop_ntp_def clock_of_ntp_store)
qed

theorem getEpochUTC_between_syncs_witness:
  "getEpochUTC (ntp_store 1700000000 3000 3001 (boot True None None)) 4000 \<le>
     getEpochUTC (run (\<lambda>e. []) [] (ntp_store 1700000000 3000 3001 (boot True None None))
        [NtpCheck True 5 NoReply 6 7, Breathe 8]) 9000"
  using getEpochUTC_between_syncs [of "[NtpCheck True 5 NoReply 6 7, Breathe 8]"
      "ntp_store 1700000000 3000 3001 (boot True None None)" 4000 9000 "\<lambda>e. []" "[]"]
  by (simp add: getNTPTime_def ntp_store_def boot_def)

text \<open>
  The claim as stated fails across an exchange: the clock set to 1700000000 at tick 3000
  shows 1700021600 at tick 21603900; the NTP block then receives 1700021590 and stores
  it at tick 21604000, and one tick later the clock shows less than it did before. The
  counter has not wrapped.
\<close>

theorem clock_steps_back:
  "getEpochUTC
     (loop_ntp True 21603900 (Reply (replicate 40 0 @ [0xE8, 0xFE, 0xC3, 0xD6] @ replicate 4 0))
        21604000 21604000 (ntp_store 1700000000 3000 3000 (boot True None None))) 21604001
   < getEpochUTC (ntp_store 1700000000 3000 3000 (boot True None None)) 21603900"
  by (simp add: getEpochUTC_def loop_ntp_def ntp_store_def boot_def getNTPTime_def nth_append
      NTP_SYNC_INTERVAL_MS_def)

section \<open>The time windows and the summary\<close>

lemma unat_cutoff_daily: "unat (now - now mod 86400 :: u32) = unat now - unat now mod 86400"
proof -
  have "unat (now mod 86400) = unat now mod 86400"
    by (simp add: unat_mod)
  then have "now mod 86400 \<le> now"
    by (simp add: word_le_nat_alt)
  then show ?thesis
    by (simp add: unat_sub unat_mod)
qed

lemma day_interval:
  fixes n l :: nat
  shows "(n - n mod 86400 \<le> l \<and> l div 86400 = n div 86400) =
         (n - n mod 86400 \<le> l \<and> l < n - n mod 86400 + 86400)"
proof -
  have e: "n - n mod 86400 = 86400 * (n div 86400)"
    by (simp add: minus_mod_eq_mult_div)
  show ?thesis
    unfolding e by (auto simp: div_nat_eqI less_mult_imp_div_less dest: div_le_mono)
qed

lemma in_period_daily: "in_period True now s = daily_window now s"
proof -
  have "(epoch s + TZ_OFFSET_SECONDS) div 86400 = now div 86400 \<longleftrightarrow>
        unat (epoch s + TZ_OFFSET_SECONDS) div 86400 = unat now div 86400"
    by (simp add: word_unat_eq_iff unat_div)
  then show ?thesis
    using day_interval [of "unat now" "unat (epoch s + TZ_OFFSET_SECONDS)"]
    by (simp add: in_period_def daily_window_def Let_def word_le_nat_alt unat_cutoff_daily)
qed

lemma join_comma_snoc:
  "join_comma (xs @ [x]) = (if xs = [] then x else join_comma xs @ '','' @ x)"
  by (induction xs rule: join_comma.induct) auto

lemma filter_step_in_period:
  "filter_step d now (if d then now - now mod 86400 else now - 7 * 86400) st acc i =
     (if in_period d now (samples st i)
      then ((if \<not> snd acc then fst acc @ '','' else fst acc) @ json_item (samples st i), False)
      else acc)"
  by (simp add: filter_step_def in_period_def Let_def)

lemma foldl_filter_step:
  "foldl (filter_step d now (if d then now - now mod 86400 else now - 7 * 86400) st)
     (''['', True) [0..<n] =
   (''['' @ join_comma (map json_item (filter (in_period d now) (map (samples st) [0..<n]))),
    filter (in_period d now) (map (samples st) [0..<n]) = [])"
proof -
  define sel where "sel = (\<lambda>k. filter (in_period d now) (map (samples st) [0..<k]))"
  define f where "f = filter_step d now (if d then now - now mod 86400 else now - 7 * 86400) st"
  have sel0: "sel 0 = []"
    by (simp add: sel_def)
  have selS: "sel (Suc k) = sel k @ (if in_period d now (samples st k) then [samples st k] else [])" for k
    by (simp add: sel_def)
  have "foldl f (''['', True) [0..<n] = (''['' @ join_comma (map json_item (sel n)), sel n = [])"
  proof (induction n)
    case 0
    show ?case by (simp add: sel0)
  next
    case (Suc n)
    have "foldl f (''['', True) [0..<Suc n] = f (foldl f (''['', True) [0..<n]) n"
      by simp
    also have "\<dots> = f (''['' @ join_comma (map json_item (sel n)), sel n = []) n"
      by (simp only: Suc)
    also have "\<dots> = (''['' @ join_comma (map json_item (sel (Suc n))), sel (Suc n) = [])"
      by (simp add: f_def filter_step_in_period selS join_comma_snoc)
    finally show ?case .
  qed
  then show ?thesis
    by (simp only: sel_def f_def)
qed

lemma getFilteredData_filter:
  "getFilteredData d ms st =
     ''['' @ join_comma (map json_item (filter (in_period d (getLocalEpoch st ms)) (stored st))) @ '']''"
proof (cases "sampleCount st = 0")
  case True
  then show ?thesis by (simp add: getFilteredData_def stored_def)
next
  case False
  then show ?thesis
    using foldl_filter_step [of d "getLocalEpoch st ms" st "sampleCount st"]
    by (simp add: getFilteredData_def stored_def Let_def)
qed

lemma summary_step_in_period:
  "summary_step d now (if d then now - now mod 86400 else now - 7 * 86400) st (sm, mn, mx, cnt) i =
     (if in_period d now (samples st i)
      then (fadd sm (tempC (samples st i)),
            (if flt (tempC (samples st i)) mn then tempC (samples st i) else mn),
            (if flt mx (tempC (samples st i)) then tempC (samples st i) else mx), cnt + 1)
      else (sm, mn, mx, cnt))"
  by (auto simp: summary_step_def in_period_def Let_def)

text \<open>The counter of the loop of \<^verbatim>\<open>generateSummary\<close> counts the samples in the window.\<close>

lemma foldl_summary_count:
  "snd (snd (snd (foldl (summary_step d now (if d then now - now mod 86400 else now - 7 * 86400) st)
      acc [0..<n]))) =
   snd (snd (snd acc)) + length (filter (in_period d now) (map (samples st) [0..<n]))"
proof (induction n)
  case 0
  show ?case by simp
next
  case (Suc n)
  obtain sm mn mx cnt where r:
    "foldl (summary_step d now (if d then now - now mod 86400 else now - 7 * 86400) st) acc [0..<n] =
       (sm, mn, mx, cnt)"
    by (metis prod_cases4)
  show ?case
    using Suc unfolding r by (simp add: r summary_step_in_period)
qed

lemma summarize_cases:
  "(window_temps d ms st = [] \<longrightarrow>
      summarize d ms st =
        Inl (if d then (if sampleCount st = 0 then ''{\"error\":\"No data\"}''
                        else ''{\"error\":\"No samples today\"}'')
             else ''{\"error\":\"No weekly data\"}'')) \<and>
   (window_temps d ms st \<noteq> [] \<longrightarrow>
      (\<exists>v. summarize d ms st = Inr v \<and> sv_cnt v = length (window_temps d ms st) \<and>
           sv_now v = getLocalEpoch st ms))"
proof (cases "sampleCount st = 0")
  case True
  then show ?thesis
    by (simp add: summarize_def window_temps_def stored_def)
next
  case False
  let ?now = "getLocalEpoch st ms"
  let ?f = "foldl (summary_step d ?now (if d then ?now - ?now mod 86400 else ?now - 7 * 86400) st)
              (Fin 0, Fin 200, Fin (- 200), 0) [0..<sampleCount st]"
  obtain sm mn mx cnt where r: "?f = (sm, mn, mx, cnt)"
    by (metis prod_cases4)
  have "snd (snd (snd ?f)) = length (filter (in_period d ?now) (map (samples st) [0..<sampleCount st]))"
    using foldl_summary_count [of d ?now st "(Fin 0, Fin 200, Fin (- 200), 0)" "sampleCount st"]
    by simp
  then have cnt: "cnt = length (window_temps d ms st)"
    by (simp add: r window_temps_def stored_def)
  show ?thesis
    using False cnt unfolding summarize_def Let_def r by simp
qed

lemma daily_window_boundary:
  "daily_window now \<lparr>epoch = (now - now mod 86400) - TZ_OFFSET_SECONDS, tempC = t\<rparr> \<and>
   \<not> daily_window now \<lparr>epoch = (now - now mod 86400) - 1 - TZ_OFFSET_SECONDS, tempC = t\<rparr>"
proof -
  let ?lo = "now - now mod 86400"
  have lo: "unat ?lo = unat now - unat now mod 86400"
    by (rule unat_cutoff_daily)
  have "\<not> (unat ?lo \<le> unat (?lo - 1) \<and> unat (?lo - 1) < unat ?lo + 86400)"
  proof (cases "?lo = 0")
    case True
    have "(- 1 :: u32) = 4294967295"
      by simp
    then have "unat (- 1 :: u32) = 4294967295"
      by (simp only: unat_numeral) simp
    then show ?thesis
      using True by simp
  next
    case False
    then have "unat (?lo - 1) = unat ?lo - 1"
      by (simp add: unat_minus_one)
    moreover have "unat ?lo \<noteq> 0"
      using False by (simp add: unat_eq_zero)
    ultimately show ?thesis by simp
  qed
  then show ?thesis
    using lo by (simp add: daily_window_def Let_def)
qed

text \<open>
  Claim C3. With \<open>now\<close> the local time, the route \<^verbatim>\<open>/data_daily.json\<close> answers with
  what \<^verbatim>\<open>getFilteredData\<close> returns, and that is exactly the
  stored samples whose local time \<open>epoch + TZ_OFFSET_SECONDS\<close> lies in the interval from
  \<open>now - now mod 86400\<close> (included) to 86400 seconds later (excluded), and the daily
  summary counts exactly those; a sample whose local time is the lower bound is in the
  window, one a second earlier is not.
\<close>

theorem daily_selection_window:
  "handleClient formatDate html meth ''/data_daily.json'' body ms msW msL st =
     (st, \<lparr>r_status = ''200 OK'', r_type = ''application/json'',
           r_body = getFilteredData True ms st\<rparr>) \<and>
   getFilteredData True ms st =
     ''['' @ join_comma (map json_item
              (filter (daily_window (getLocalEpoch st ms)) (stored st))) @ '']'' \<and>
   (case summarize True ms st of
      Inl msg \<Rightarrow> filter (daily_window (getLocalEpoch st ms)) (stored st) = []
    | Inr v \<Rightarrow> sv_cnt v = length (filter (daily_window (getLocalEpoch st ms)) (stored st))) \<and>
   daily_window now \<lparr>epoch = (now - now mod 86400) - TZ_OFFSET_SECONDS, tempC = t\<rparr> \<and>
   \<not> daily_window now \<lparr>epoch = (now - now mod 86400) - 1 - TZ_OFFSET_SECONDS, tempC = t\<rparr>"
proof -
  have eq: "in_period True (getLocalEpoch st ms) = daily_window (getLocalEpoch st ms)"
    by (rule ext) (rule in_period_daily)
  have a: "getFilteredData True ms st =
     ''['' @ join_comma (map json_item
              (filter (daily_window (getLocalEpoch st ms)) (stored st))) @ '']''"
    using getFilteredData_filter [of True ms st] by (simp only: eq)
  have b: "(case summarize True ms st of
      Inl msg \<Rightarrow> filter (daily_window (getLocalEpoch st ms)) (stored st) = []
    | Inr v \<Rightarrow> sv_cnt v = length (filter (daily_window (getLocalEpoch st ms)) (stored st)))"
  proof (cases "window_temps True ms st = []")
    case True
    then show ?thesis
      using summarize_cases [of True ms st] by (simp add: window_temps_def eq)
  next
    case False
    then obtain v where "summarize True ms st = Inr v" "sv_cnt v = length (window_temps True ms st)"
      using summarize_cases [of True ms st] by blast
    then show ?thesis
      by (simp add: window_temps_def eq)
  qed
  have r: "handleClient formatDate html meth ''/data_daily.json'' body ms msW msL st =
     (st, \<lparr>r_status = ''200 OK'', r_type = ''application/json'',
           r_body = getFilteredData True ms st\<rparr>)"
    by (simp add: handleClient_def send_def)
  show ?thesis
    using r a b daily_window_boundary [of now t] by blast
qed

text \<open>
  Claim C2 fails on the code. The loop starts with \<^verbatim>\<open>min = 200\<close> and
  \<^verbatim>\<open>max = -200\<close>, so a window whose temperatures are all above 200 (or all below
  -200) reports the starting value: for the single sample of 250 degrees below, the
  summary gives the minimum 200.
\<close>

theorem summary_min_is_sentinel:
  "summarize False 8000
     (store_sample 1700000000 (Fin 250) (ntp_store 1700000000 3000 3000 (boot True None None))) =
   Inr \<lparr>sv_now = 1700019805, sv_cnt = 1, sv_avg = Fin 250, sv_min = Fin 200, sv_max = Fin 250,
        sv_trend = ''Variable''\<rparr>"
  by (simp add: summarize_def summary_step_def store_sample_def ntp_store_def
      boot_def MAX_SAMPLES_def getLocalEpoch_def getEpochUTC_def
      TZ_OFFSET_SECONDS_def Let_def fsub_def to_float_def FLT_OVERFLOW_def)

lemma window_temps_example:
  "window_temps True 8000
     (store_sample 1700000500 b (store_sample 1700000000 a
        (ntp_store 1700000000 3000 3000 (boot True None None)))) = [a, b]"
  by (simp add: window_temps_def stored_def store_sample_def ntp_store_def
      boot_def MAX_SAMPLES_def in_period_def getLocalEpoch_def getEpochUTC_def
      TZ_OFFSET_SECONDS_def Let_def)

lemma print_2f_examples:
  "print_2f (1001 / 4) = ''250.25''" "print_2f 200 = ''200.00''" "print_2f (501 / 2) = ''250.50''"
  by (simp_all add: print_2f_def round_half_even_def show_nat.simps digit_char_def Let_def)

text \<open>
  Claim C8 fails on the code, for the reason that claim C2 does: the minimum the trend
  is computed from starts at 200 and the maximum at -200. The daily window below holds
  the temperatures 250 and 250.5, whose spread 0.5 is below 1, so that the label of
  the claim is \<^verbatim>\<open>Stable\<close>; the summary has the minimum 200, the spread 50.5 and the
  label \<^verbatim>\<open>Variable\<close>, which is the one it prints. All the numbers involved are
  values of a \<^verbatim>\<open>float\<close>.
\<close>

theorem trend_from_sentinel:
  "window_temps True 8000
     (store_sample 1700000500 (Fin 250.5) (store_sample 1700000000 (Fin 250)
        (ntp_store 1700000000 3000 3000 (boot True None None)))) = [Fin 250, Fin 250.5] \<and>
   trend_of (250.5 - 250) = ''Stable'' \<and>
   summarize True 8000
     (store_sample 1700000500 (Fin 250.5) (store_sample 1700000000 (Fin 250)
        (ntp_store 1700000000 3000 3000 (boot True None None)))) =
     Inr \<lparr>sv_now = 1700019805, sv_cnt = 2, sv_avg = Fin 250.25, sv_min = Fin 200,
          sv_max = Fin 250.5, sv_trend = ''Variable''\<rparr> \<and>
   generateSummary (\<lambda>e. ''2023-11-15'') True 8000
     (store_sample 1700000500 (Fin 250.5) (store_sample 1700000000 (Fin 250)
        (ntp_store 1700000000 3000 3000 (boot True None None)))) =
     ''{\"date\":\"2023-11-15\",\"samples\":2,\"avg\":250.25,\"min\":200.00,\"max\":250.50,\"trend\":\"Variable\"}''"
proof -
  let ?st = "store_sample 1700000500 (Fin 250.5) (store_sample 1700000000 (Fin 250)
        (ntp_store 1700000000 3000 3000 (boot True None None)))"
  have s: "summarize True 8000 ?st =
     Inr \<lparr>sv_now = 1700019805, sv_cnt = 2, sv_avg = Fin 250.25, sv_min = Fin 200,
          sv_max = Fin 250.5, sv_trend = ''Variable''\<rparr>"
    by (simp add: summarize_def summary_step_def store_sample_def ntp_store_def
        boot_def MAX_SAMPLES_def getLocalEpoch_def getEpochUTC_def
        TZ_OFFSET_SECONDS_def Let_def fsub_def to_float_def FLT_OVERFLOW_def)
  have g: "generateSummary (\<lambda>e. ''2023-11-15'') True 8000 ?st =
     ''{\"date\":\"2023-11-15\",\"samples\":2,\"avg\":250.25,\"min\":200.00,\"max\":250.50,\"trend\":\"Variable\"}''"
    unfolding generateSummary_def s
    by (simp add: fmt_2f_def print_2f_examples show_nat.simps digit_char_def)
  show ?thesis
    using s g by (simp add: window_temps_example trend_of_def)
qed

text \<open>
  Claim C9. When no sample is in the daily window the daily summary is one of two
  messages, when none is in the weekly window the weekly summary is a third, different
  from both; and the \<^verbatim>\<open>/summary\<close> route sends them in a JSON body with the status
  \<^verbatim>\<open>200 OK\<close>.
\<close>

theorem no_data_messages:
  "(window_temps True msD st = [] \<longrightarrow>
      generateSummary formatDate True msD st \<in>
        {''{\"error\":\"No data\"}'', ''{\"error\":\"No samples today\"}''}) \<and>
   (window_temps False msW st = [] \<longrightarrow>
      generateSummary formatDate False msW st = ''{\"error\":\"No weekly data\"}'') \<and>
   ''{\"error\":\"No data\"}'' \<noteq> ''{\"error\":\"No weekly data\"}'' \<and>
   ''{\"error\":\"No samples today\"}'' \<noteq> ''{\"error\":\"No weekly data\"}'' \<and>
   handleClient formatDate html meth ''/summary'' body msD msW msL st =
     (st, \<lparr>r_status = ''200 OK'', r_type = ''application/json'',
           r_body = ''{\"daily\":'' @ generateSummary formatDate True msD st @
                    '',\"weekly\":'' @ generateSummary formatDate False msW st @ ''}''\<rparr>)"
  using summarize_cases [of True msD st] summarize_cases [of False msW st]
  by (simp add: generateSummary_def handleClient_def send_def)

theorem no_data_messages_witness:
  "generateSummary (\<lambda>e. []) True 8000 (boot True None None) = ''{\"error\":\"No data\"}'' \<and>
   generateSummary (\<lambda>e. []) False 9000 (boot True None None) = ''{\"error\":\"No weekly data\"}'' \<and>
   handleClient (\<lambda>e. []) [] ''GET'' ''/summary'' [] 8000 9000 0 (boot True None None) =
     (boot True None None, \<lparr>r_status = ''200 OK'', r_type = ''application/json'',
           r_body = ''{\"daily\":{\"error\":\"No data\"},\"weekly\":{\"error\":\"No weekly data\"}}''\<rparr>)"
  using no_data_messages [of 8000 "boot True None None" "\<lambda>e. []" 9000 "[]" "''GET''" "[]" 0]
  by (simp add: window_temps_def stored_def boot_def generateSummary_def summarize_def)

section \<open>Reading lines\<close>

lemma comma_not_NUL [simp]: "CHR '','' \<noteq> NUL" "NL \<noteq> NUL"
  by (simp_all add: NUL_def NL_def)

lemma takeWhile_no_NUL:
  assumes "NUL \<notin> set s"
  shows "takeWhile (\<lambda>x. x \<noteq> NUL) s = s"
  using assms by (induction s) auto

lemma NUL_trim:
  assumes "NUL \<notin> set raw"
  shows "NUL \<notin> set (trim raw)"
proof -
  have "set (trim raw) \<subseteq> set raw"
    by (auto simp: trim_def dest!: set_dropWhileD)
  then show ?thesis
    using assms by blast
qed

lemma indexOf_0_le_0:
  assumes "c \<noteq> NUL"
  shows "indexOf s c 0 \<le> 0 \<longleftrightarrow> c \<notin> set (takeWhile (\<lambda>x. x \<noteq> NUL) s) \<or> hd s = c"
proof (cases s)
  case Nil
  then show ?thesis by (simp add: indexOf_def)
next
  case (Cons x xs)
  then show ?thesis
    using assms by (auto simp: indexOf_def Let_def)
qed

lemma import_line_loadCSV_line: "import_line raw = loadCSV_line raw"
  by (simp add: import_line_def loadCSV_line_def Let_def indexOf_def)

text \<open>
  A line is rejected exactly when no comma comes before its first zero byte or it
  starts with a comma.
\<close>

lemma loadCSV_line_None:
  "loadCSV_line raw = None \<longleftrightarrow>
     CHR '','' \<notin> set (takeWhile (\<lambda>x. x \<noteq> NUL) (trim raw)) \<or> hd (trim raw) = CHR '',''"
  by (auto simp: loadCSV_line_def Let_def indexOf_0_le_0)

lemma loadCSV_line_None_text:
  assumes "NUL \<notin> set raw"
  shows "loadCSV_line raw = None \<longleftrightarrow>
           trim raw = [] \<or> CHR '','' \<notin> set (trim raw) \<or> hd (trim raw) = CHR '',''"
proof -
  have tw: "takeWhile (\<lambda>x. x \<noteq> NUL) (trim raw) = trim raw"
    using NUL_trim [OF assms] by (rule takeWhile_no_NUL)
  show ?thesis
    unfolding loadCSV_line_None tw by auto
qed

lemma indexOf_first:
  assumes "c \<notin> set a" and "NUL \<notin> set a" and "c \<noteq> NUL"
  shows "indexOf (a @ c # b) c 0 = int (length a)"
proof -
  have seg: "takeWhile (\<lambda>x. x \<noteq> NUL) (a @ c # b) = a @ c # takeWhile (\<lambda>x. x \<noteq> NUL) b"
    using assms(2,3) by (induction a) auto
  have tw: "takeWhile (\<lambda>x. x \<noteq> c) (a @ c # takeWhile (\<lambda>x. x \<noteq> NUL) b) = a"
    using assms(1) by (induction a) auto
  show ?thesis
    using assms(3) by (simp add: indexOf_def Let_def seg tw)
qed

lemma substring_prefix: "substring (a @ b) 0 (length a) = a"
  by (cases "a @ b = []") (auto simp: substring_def Let_def)

lemma substring_suffix: "substring (a @ c # b) (length a + 1) (length (a @ c # b)) = b"
  by (cases b) (auto simp: substring_def Let_def)

lemma loadCSV_line_fields:
  assumes "trim raw = ef @ CHR '','' # tf" and "ef \<noteq> []" and "CHR '','' \<notin> set ef"
    and "NUL \<notin> set ef"
  shows "loadCSV_line raw = Some \<lparr>epoch = word_of_int (toInt ef), tempC = toFloat tf\<rparr>"
proof -
  have i: "indexOf (ef @ CHR '','' # tf) CHR '','' 0 = int (length ef)"
    using assms(3,4) by (intro indexOf_first) simp_all
  have p: "substring (ef @ CHR '','' # tf) 0 (length ef) = ef"
    by (rule substring_prefix)
  have s: "substring (ef @ CHR '','' # tf) (length ef + 1) (length (ef @ CHR '','' # tf)) = tf"
    by (rule substring_suffix)
  show ?thesis
    using assms(2) p s unfolding loadCSV_line_def Let_def assms(1) i by simp
qed

lemma toInt_non_numeric: "non_numeric_int f \<Longrightarrow> toInt f = 0"
  by (cases "strip_sign (dropWhile isspace f)")
     (auto simp: non_numeric_int_def toInt_def dec_val_def split: list.splits)

lemma to_float_0: "to_float 0 = Fin 0"
  by (simp add: to_float_def FLT_OVERFLOW_def)

lemma starts_with_hd:
  assumes "starts_with (w # ws) r"
  shows "r \<noteq> [] \<and> tolower (hd r) = w"
  using assms by (cases r) auto



lemma tolower_range:
  "tolower c = c \<or> tolower c \<in> set ''abcdefghijklmnopqrstuvwxyz''"
proof (cases "map_of (zip ''ABCDEFGHIJKLMNOPQRSTUVWXYZ'' ''abcdefghijklmnopqrstuvwxyz'') c")
  case None
  show ?thesis
    unfolding tolower_def None by simp
next
  case (Some l)
  then have "(c, l) \<in> set (zip ''ABCDEFGHIJKLMNOPQRSTUVWXYZ'' ''abcdefghijklmnopqrstuvwxyz'')"
    by (rule map_of_SomeD)
  then have l: "l \<in> set ''abcdefghijklmnopqrstuvwxyz''"
    by (rule set_zip_rightD)
  show ?thesis
    unfolding tolower_def Some option.case using l by (rule disjI2)
qed


lemma dec_number_none:
  assumes "r = [] \<or> \<not> isdigit (hd r) \<and> \<not> (hd r = CHR ''.'' \<and> tl r \<noteq> [] \<and> isdigit (hd (tl r)))"
  shows "dec_number r = 0"
proof (cases r)
  case Nil
  then show ?thesis by (simp add: dec_number_def)
next
  case (Cons c r')
  then have c: "\<not> isdigit c" and p: "\<not> (c = CHR ''.'' \<and> r' \<noteq> [] \<and> isdigit (hd r'))"
    using assms by simp_all
  have "takeWhile isdigit r' = []" if "c = CHR ''.''"
    using p that by (cases r') auto
  then show ?thesis
    using c by (simp add: dec_number_def Let_def Cons)
qed

text \<open>
  A temperature field that is not a number reads as 0, unless it spells an infinity or
  NaN.
\<close>

lemma toFloat_non_numeric:
  assumes "non_numeric_float f" and "\<not> spells_inf f" and "\<not> spells_nan f"
  shows "toFloat f = Fin 0"
proof -
  obtain neg r where sr: "strip_sign (dropWhile isspace f) = (neg, r)"
    by (cases "strip_sign (dropWhile isspace f)") auto
  have nn: "r = [] \<or> \<not> isdigit (hd r) \<and> \<not> (hd r = CHR ''.'' \<and> tl r \<noteq> [] \<and> isdigit (hd (tl r)))"
    using assms(1) by (cases r) (simp_all add: non_numeric_float_def sr)
  have d: "dec_number r = 0"
    using nn by (rule dec_number_none)
  have x: "\<not> starts_with ''0x'' r"
  proof
    assume "starts_with ''0x'' r"
    then have "r \<noteq> []" and "tolower (hd r) = CHR ''0''"
      using starts_with_hd [of "CHR ''0''" "''x''" r] by simp_all
    then have "hd r = CHR ''0''"
      using tolower_range [of "hd r"] by auto
    then show False
      using nn \<open>r \<noteq> []\<close> by (simp add: isdigit_def)
  qed
  show ?thesis
    using assms(2,3) x d by (simp add: toFloat_def sr spells_inf_def spells_nan_def to_float_0)
qed

lemma toFloat_inf:
  assumes "spells_inf f"
  shows "toFloat f = (if fst (strip_sign (dropWhile isspace f)) then NInf else PInf)"
  using assms by (cases "strip_sign (dropWhile isspace f)") (simp add: toFloat_def spells_inf_def)

lemma toFloat_nan:
  assumes "spells_nan f"
  shows "toFloat f = NaN"
proof -
  obtain neg r where sr: "strip_sign (dropWhile isspace f) = (neg, r)"
    by (cases "strip_sign (dropWhile isspace f)") auto
  have n: "starts_with ''nan'' r"
    using assms by (simp add: spells_nan_def sr)
  then have "tolower (hd r) = CHR ''n''"
    using starts_with_hd [of "CHR ''n''" "''an''" r] by simp
  then have "\<not> starts_with ''inf'' r"
    using starts_with_hd [of "CHR ''i''" "''nf''" r] by auto
  then show ?thesis
    using n by (simp add: toFloat_def sr)
qed

lemma loadCSV_line_abc_def: "loadCSV_line ''abc,def'' = Some \<lparr>epoch = 0, tempC = Fin 0\<rparr>"
proof -
  have t: "trim ''abc,def'' = ''abc'' @ CHR '','' # ''def''"
    by (simp add: trim_def isspace_def)
  have "toInt ''abc'' = 0"
    by (rule toInt_non_numeric) (simp add: non_numeric_int_def isspace_def isdigit_def)
  moreover have "toFloat ''def'' = Fin 0"
    by (rule toFloat_non_numeric)
       (simp_all add: non_numeric_float_def spells_inf_def spells_nan_def isspace_def isdigit_def
          tolower_def)
  ultimately show ?thesis
    using loadCSV_line_fields [OF t] by (simp add: NUL_def)
qed

text \<open>
  The other spellings of a number that \<^verbatim>\<open>strtod\<close> reads: a hexadecimal number, an
  exponent, a value too large for a \<^verbatim>\<open>float\<close>.
\<close>

lemma toFloat_examples:
  "toFloat ''0x10'' = Fin 16" "toFloat ''0x1.8p1'' = Fin 3" "toFloat ''1e2'' = Fin 100"
  "toFloat ''-2.5E-1'' = Fin (- 0.25)" "toFloat ''1e39'' = PInf" "toFloat '' +7x'' = Fin 7"
  by (simp_all add: toFloat_def isspace_def tolower_def hex_number_def dec_number_def
      isxdigit_def isdigit_def hex_val_def xdigit_val_def dec_val_def digit_val_def
      parse_exp_def to_float_def FLT_OVERFLOW_def Let_def)

text \<open>
  A zero byte hides what follows it from the search for the comma: the line
  \<^verbatim>\<open>1\<close>, zero byte, \<^verbatim>\<open>,5\<close> is rejected, although it has a comma at index 2.
\<close>

lemma zero_byte_hides_comma:
  "loadCSV_line [CHR ''1'', NUL, CHR '','', CHR ''5''] = None \<and>
   import_line [CHR ''1'', NUL, CHR '','', CHR ''5''] = None"
  by (simp add: import_line_loadCSV_line loadCSV_line_None trim_def isspace_def NUL_def)

text \<open>
  Claim C10, as amended. Both parsers treat a line alike. After \<^verbatim>\<open>trim()\<close>, a line
  without a zero byte is rejected exactly when it is empty, has no comma, or starts
  with a comma. A line whose first comma follows a non-empty field is accepted, the
  field before the comma read by \<^verbatim>\<open>toInt\<close> and the rest by \<^verbatim>\<open>toFloat\<close>. A
  timestamp field that is not a number reads as 0. A temperature field that is not a
  number reads as 0 unless it starts, after white space and a sign, with \<^verbatim>\<open>inf\<close> or
  \<^verbatim>\<open>nan\<close> in any case; then it reads as an infinity or as NaN. \<^verbatim>\<open>abc,def\<close> is the
  sample with epoch 0 and temperature 0.
\<close>

theorem line_acceptance:
  assumes "NUL \<notin> set raw"
  shows "import_line raw = loadCSV_line raw \<and>
   (loadCSV_line raw = None \<longleftrightarrow>
      trim raw = [] \<or> CHR '','' \<notin> set (trim raw) \<or> hd (trim raw) = CHR '','') \<and>
   (\<forall>ef tf. trim raw = ef @ CHR '','' # tf \<and> ef \<noteq> [] \<and> CHR '','' \<notin> set ef \<longrightarrow>
      loadCSV_line raw = Some \<lparr>epoch = word_of_int (toInt ef), tempC = toFloat tf\<rparr> \<and>
      (non_numeric_int ef \<longrightarrow> toInt ef = 0) \<and>
      (non_numeric_float tf \<and> \<not> spells_inf tf \<and> \<not> spells_nan tf \<longrightarrow> toFloat tf = Fin 0) \<and>
      (spells_inf tf \<longrightarrow> toFloat tf = PInf \<or> toFloat tf = NInf) \<and>
      (spells_nan tf \<longrightarrow> toFloat tf = NaN)) \<and>
   loadCSV_line ''abc,def'' = Some \<lparr>epoch = 0, tempC = Fin 0\<rparr>"
proof -
  have fields: "loadCSV_line raw = Some \<lparr>epoch = word_of_int (toInt ef), tempC = toFloat tf\<rparr>"
    if "trim raw = ef @ CHR '','' # tf" and "ef \<noteq> []" and "CHR '','' \<notin> set ef" for ef tf
  proof -
    have "NUL \<notin> set (trim raw)"
      using assms by (rule NUL_trim)
    then have "NUL \<notin> set ef"
      by (simp add: that(1))
    then show ?thesis
      using that by (intro loadCSV_line_fields)
  qed
  have inf: "toFloat tf = PInf \<or> toFloat tf = NInf" if "spells_inf tf" for tf
    using toFloat_inf [OF that] by (simp split: if_splits)
  show ?thesis
    using import_line_loadCSV_line [of raw] loadCSV_line_None_text [OF assms] loadCSV_line_abc_def
    by (auto simp: fields toInt_non_numeric toFloat_non_numeric toFloat_nan inf)
qed

theorem line_acceptance_witness:
  "import_line ''abc,def'' = Some \<lparr>epoch = 0, tempC = Fin 0\<rparr> \<and>
   loadCSV_line ''abc,def'' = Some \<lparr>epoch = 0, tempC = Fin 0\<rparr> \<and>
   NUL \<notin> set ''abc,def'' \<and>
   trim ''abc,def'' = ''abc'' @ CHR '','' # ''def'' \<and>
   non_numeric_int ''abc'' \<and>
   non_numeric_float ''def'' \<and> \<not> spells_inf ''def'' \<and> \<not> spells_nan ''def'' \<and>
   toInt ''abc'' = 0 \<and> toFloat ''def'' = Fin 0 \<and>
   loadCSV_line '',5'' = None \<and> loadCSV_line ''75'' = None \<and> loadCSV_line ''  '' = None"
proof -
  note r = line_acceptance [of "''abc,def''"]
  have n: "NUL \<notin> set ''abc,def''" "NUL \<notin> set '',5''" "NUL \<notin> set ''75''" "NUL \<notin> set ''  ''"
    by (simp_all add: NUL_def)
  have t: "trim ''abc,def'' = ''abc'' @ CHR '','' # ''def''"
    by (simp add: trim_def isspace_def)
  have p: "non_numeric_int ''abc''" "non_numeric_float ''def''" "\<not> spells_inf ''def''"
    "\<not> spells_nan ''def''"
    by (simp_all add: non_numeric_int_def non_numeric_float_def spells_inf_def spells_nan_def
        isspace_def isdigit_def tolower_def)
  have a: "import_line ''abc,def'' = Some \<lparr>epoch = 0, tempC = Fin 0\<rparr>"
    "loadCSV_line ''abc,def'' = Some \<lparr>epoch = 0, tempC = Fin 0\<rparr>"
    using r [OF n(1)] by simp_all
  have "\<forall>ef tf. trim ''abc,def'' = ef @ CHR '','' # tf \<and> ef \<noteq> [] \<and> CHR '','' \<notin> set ef \<longrightarrow>
      (non_numeric_int ef \<longrightarrow> toInt ef = 0) \<and>
      (non_numeric_float tf \<and> \<not> spells_inf tf \<and> \<not> spells_nan tf \<longrightarrow> toFloat tf = Fin 0)"
    using r [OF n(1)] by blast
  note inst = this [rule_format, of "''abc''" "''def''"]
  have b: "toInt ''abc'' = 0" "toFloat ''def'' = Fin 0"
    using inst t p by simp_all
  have c: "loadCSV_line '',5'' = None" "loadCSV_line ''75'' = None" "loadCSV_line ''  '' = None"
    using line_acceptance [OF n(2)] line_acceptance [OF n(3)] line_acceptance [OF n(4)]
    by (simp_all add: trim_def isspace_def)
  show ?thesis
    using a b c n(1) t p by simp
qed

text \<open>
  The claim as stated fails for a temperature field that spells NaN or an infinity:
  \<^verbatim>\<open>strtod\<close> reads these words, so the line \<^verbatim>\<open>abc,nan\<close> is the sample with the
  temperature NaN and \<^verbatim>\<open>5,-Infinity\<close> the one with the temperature minus infinity,
  not 0.
\<close>

theorem nan_field_is_kept:
  "loadCSV_line ''abc,nan'' = Some \<lparr>epoch = 0, tempC = NaN\<rparr> \<and>
   import_line ''abc,nan'' = Some \<lparr>epoch = 0, tempC = NaN\<rparr> \<and>
   import_line ''5,-Infinity'' = Some \<lparr>epoch = 5, tempC = NInf\<rparr> \<and>
   non_numeric_float ''nan'' \<and> non_numeric_float ''-Infinity'' \<and>
   NaN \<noteq> Fin 0 \<and> NInf \<noteq> Fin 0"
proof -
  have t: "trim ''abc,nan'' = ''abc'' @ CHR '','' # ''nan''"
    "trim ''5,-Infinity'' = ''5'' @ CHR '','' # ''-Infinity''"
    by (simp_all add: trim_def isspace_def)
  have i: "toInt ''abc'' = 0" "toInt ''5'' = 5"
    by (simp_all add: toInt_def isspace_def isdigit_def dec_val_def digit_val_def)
  have f: "toFloat ''nan'' = NaN" "toFloat ''-Infinity'' = NInf"
    by (simp_all add: toFloat_def isspace_def tolower_def)
  have a: "loadCSV_line ''abc,nan'' = Some \<lparr>epoch = 0, tempC = NaN\<rparr>"
    using loadCSV_line_fields [OF t(1)] by (simp add: i f NUL_def)
  have b: "loadCSV_line ''5,-Infinity'' = Some \<lparr>epoch = 5, tempC = NInf\<rparr>"
    using loadCSV_line_fields [OF t(2)] by (simp add: i f NUL_def)
  have n: "non_numeric_float ''nan''" "non_numeric_float ''-Infinity''"
    by (simp_all add: non_numeric_float_def isspace_def isdigit_def)
  show ?thesis
    using a b n by (simp add: import_line_loadCSV_line)
qed

section \<open>The import route\<close>




























section \<open>Writing the file and loading it again\<close>














































end
